theory Spec2Isabelle
  imports Complex_Main
begin

section \<open>Values\<close>

text \<open>
  The optimizers of \<^verbatim>\<open>superlearn_library/optimimzers.py\<close> compute on numpy arrays of
  float64. The embedding reads float64 arithmetic as exact arithmetic on the reals.
  \<^verbatim>\<open>gradient_descent\<close> is the one function that divides, and numpy does not raise on a
  division by zero: it stores nan. So the arrays of \<^verbatim>\<open>gradient_descent\<close> hold values of
  the type \<open>float64\<close> below, a real or nan, and every operation on nan gives nan.
  \<^verbatim>\<open>backtracking\<close> and \<^verbatim>\<open>newtons_method\<close> only add, subtract and multiply, and
  their arrays hold reals.

  The one place where the program tests a computed number for equality with zero is the
  norm of the gradient in \<^verbatim>\<open>gradient_descent\<close>. There the rounding of float64 decides
  the branch, and the loop is given a second time with the norm as a parameter.
\<close>

datatype float64 = Fin real | NaN

fun fadd :: "float64 \<Rightarrow> float64 \<Rightarrow> float64" where
  "fadd (Fin a) (Fin b) = Fin (a + b)"
| "fadd _ _ = NaN"

fun fsub :: "float64 \<Rightarrow> float64 \<Rightarrow> float64" where
  "fsub (Fin a) (Fin b) = Fin (a - b)"
| "fsub _ _ = NaN"

fun fmul :: "float64 \<Rightarrow> float64 \<Rightarrow> float64" where
  "fmul (Fin a) (Fin b) = Fin (a * b)"
| "fmul _ _ = NaN"

text \<open>
  Division by zero: numpy warns and stores nan for \<open>0 / 0\<close>. The only division of the
  program divides a vector by its own norm, which in exact arithmetic is zero only when
  every entry is zero. A nonzero numerator over zero is an infinity in numpy; the model
  writes \<open>NaN\<close> there too, a value that is not a real.
\<close>

fun fdiv :: "float64 \<Rightarrow> float64 \<Rightarrow> float64" where
  "fdiv (Fin a) (Fin b) = (if b = 0 then NaN else Fin (a / b))"
| "fdiv _ _ = NaN"

fun fsqrt :: "float64 \<Rightarrow> float64" where
  "fsqrt (Fin a) = (if a < 0 then NaN else Fin (sqrt a))"
| "fsqrt NaN = NaN"

text \<open>An array of shape \<open>(n, 1)\<close> is the list of its \<open>n\<close> entries.\<close>

type_synonym column = "float64 list"

text \<open>
  \<^verbatim>\<open>np.linalg.norm\<close> of a column in exact arithmetic: the square root of the sum of the
  squares.
\<close>

definition linalg_norm :: "column \<Rightarrow> float64" where
  "linalg_norm v = fsqrt (foldr fadd (map (\<lambda>x. fmul x x) v) (Fin 0))"

text \<open>\<^verbatim>\<open>a * v\<close> for a scalar \<open>a\<close>, and \<^verbatim>\<open>w - v\<close> for two columns of one shape.\<close>

definition scale :: "real \<Rightarrow> column \<Rightarrow> column" where
  "scale a v = map (fmul (Fin a)) v"

definition minus_col :: "column \<Rightarrow> column \<Rightarrow> column" where
  "minus_col w v = map2 fsub w v"

section \<open>Errors, the initial point, the options\<close>

text \<open>
  \<open>ValueError\<close> is what numpy raises when an array cannot take the shape assigned to
  it, when the shapes of a product are not aligned, and when two shapes do not broadcast.
  \<open>TypeError\<close> is what Python raises when a value that is not callable is called. The
  caller's objective is code of the caller's and may raise anything else: \<open>OtherError\<close>
  with the name of the exception.
\<close>

datatype error = ValueError | TypeError | OtherError string

text \<open>The caller's initial point is a scalar or a flat sequence of numbers.\<close>

datatype 'a point = Scalar 'a | Sequence "'a list"

fun np_size :: "'a point \<Rightarrow> nat" where
  "np_size (Scalar x) = 1"
| "np_size (Sequence xs) = length xs"

fun asarray :: "'a point \<Rightarrow> 'a list" where
  "asarray (Scalar x) = [x]"
| "asarray (Sequence xs) = xs"

text \<open>
  Lines 24 to 28 and 109 to 113: a point of size one goes through \<^verbatim>\<open>np.asarray\<close>, any
  other through \<^verbatim>\<open>[float(s) for s in w]\<close> (the identity on numbers), and the array
  then takes the shape \<open>(np.size(w), 1)\<close>.
\<close>

definition format_w :: "'a point \<Rightarrow> 'a list" where
  "format_w w = (if np_size w = 1 then asarray w else map (\<lambda>s. s) (asarray w))"

text \<open>
  \<^verbatim>\<open>**kwargs\<close>: each key the two optimizers look up is present or absent. Keys they do
  not look up are ignored by the code and are not modelled.
\<close>

record kwargs =
  kw_max_its :: "int option"
  kw_version :: "string option"
  kw_alpha :: "real option"
  kw_steplength_rule :: "string option"
  kw_epsilon :: "real option"

definition no_kwargs :: kwargs where
  "no_kwargs = \<lparr>kw_max_its = None, kw_version = None, kw_alpha = None,
                 kw_steplength_rule = None, kw_epsilon = None\<rparr>"

section \<open>Gradient descent\<close>

text \<open>
  \<^verbatim>\<open>np.random.rand(1)\<close> reads the global generator. The model takes the sequence of its
  draws, \<open>draws 0\<close>, \<open>draws 1\<close>, ..., each in \<open>[0, 1)\<close>, and threads the number \<open>i\<close> of
  draws made so far.

  Lines 56 to 60, the normalized step: the norm, the perturbation of a zero norm by
  \<^verbatim>\<open>10**-6*np.sign(2*np.random.rand(1) - 1)\<close>, the division.
\<close>

definition normalized_direction :: "column \<Rightarrow> (nat \<Rightarrow> real) \<Rightarrow> nat \<Rightarrow> column \<times> nat" where
  "normalized_direction grad_eval draws i =
     (let grad_norm = linalg_norm grad_eval in
      if grad_norm = Fin 0
      then (let grad_norm = fadd grad_norm (Fin ((1 / 10 ^ 6) * sgn (2 * draws i - 1)))
            in (map (\<lambda>x. fdiv x grad_norm) grad_eval, Suc i))
      else (map (\<lambda>x. fdiv x grad_norm) grad_eval, i))"

text \<open>A generator that returns the same number at every draw.\<close>

definition constant_draws :: "real \<Rightarrow> nat \<Rightarrow> real" where
  "constant_draws r i = r"

text \<open>
  Lines 50 to 78, the loop, with the number of iterations left as the counter. \<open>grad\<close> is
  the function \<^verbatim>\<open>compute_grad(g)\<close> that autograd returns.
  \<^verbatim>\<open>grad_eval.shape = (len(w),1)\<close> raises when the gradient has not \<open>len(w)\<close> entries.
\<close>

fun gd_loop :: "(column \<Rightarrow> column) \<Rightarrow> (nat \<Rightarrow> real) \<Rightarrow> string \<Rightarrow> real \<Rightarrow>
    nat \<Rightarrow> nat \<Rightarrow> column \<Rightarrow> column list \<Rightarrow> error + column list" where
  "gd_loop grad draws version alpha 0 i w w_hist = Inr w_hist"
| "gd_loop grad draws version alpha (Suc k) i w w_hist =
     (let grad_eval = grad w in
      if length grad_eval \<noteq> length w then Inl ValueError
      else
        (let (grad_eval, i) =
               (if version = ''normalized'' then normalized_direction grad_eval draws i
                else (grad_eval, i));
             w = minus_col w (scale alpha grad_eval)
         in gd_loop grad draws version alpha k i w (w_hist @ [w])))"

text \<open>The options of lines 31 to 42, with their defaults.\<close>

definition gd_max_its :: "kwargs \<Rightarrow> int" where
  "gd_max_its kw = (case kw_max_its kw of Some m \<Rightarrow> m | None \<Rightarrow> 100)"

definition gd_version :: "kwargs \<Rightarrow> string" where
  "gd_version kw = (case kw_version kw of Some v \<Rightarrow> v | None \<Rightarrow> ''unnormalized'')"

definition gd_alpha :: "kwargs \<Rightarrow> real" where
  "gd_alpha kw = (case kw_alpha kw of Some a \<Rightarrow> a | None \<Rightarrow> 1 / 10 ^ 4)"

text \<open>\<^verbatim>\<open>range(max_its)\<close> is empty for a negative \<open>max_its\<close>: \<open>nat\<close> of it iterations.\<close>

definition gradient_descent ::
    "(column \<Rightarrow> column) \<Rightarrow> (nat \<Rightarrow> real) \<Rightarrow> float64 point \<Rightarrow> kwargs \<Rightarrow> error + column list" where
  "gradient_descent grad draws w kw =
     (let w = format_w w;
          w_hist = [] @ [w]
      in gd_loop grad draws (gd_version kw) (gd_alpha kw) (nat (gd_max_its kw)) 0 w w_hist)"

text \<open>
  \<^verbatim>\<open>np.linalg.norm\<close> computes \<^verbatim>\<open>sqrt(x.dot(x))\<close> in float64, and float64 stores a square
  that is too small as zero: its smallest positive value is \<open>1 / 2 ^ 1074\<close>, and rounding
  to nearest sends every real up to half of that to zero. \<open>linalg_norm_f64\<close> is the norm
  with this underflow of the squares, and exact otherwise. With it a gradient that is not
  zero can have the norm zero, which \<open>linalg_norm\<close> cannot show.
\<close>

definition square_f64 :: "float64 \<Rightarrow> float64" where
  "square_f64 x =
     (case x of
        Fin a \<Rightarrow> (if a * a \<le> 1 / 2 ^ 1075 then Fin 0 else Fin (a * a))
      | NaN \<Rightarrow> NaN)"

definition linalg_norm_f64 :: "column \<Rightarrow> float64" where
  "linalg_norm_f64 v = fsqrt (foldr fadd (map square_f64 v) (Fin 0))"

text \<open>
  Lines 50 to 78 again, with the two collaborators of the loop as parameters: \<open>nrm\<close> for
  \<^verbatim>\<open>np.linalg.norm\<close>, and a gradient function that may raise. The gradient function of
  autograd calls the caller's objective and raises what that raises: \<open>TypeError\<close> for an
  objective that is not callable. With \<open>linalg_norm\<close> and a gradient function that
  returns, these are the definitions above (lemma \<open>gradient_descent_with_exact\<close>).
\<close>

definition normalized_direction_with ::
    "(column \<Rightarrow> float64) \<Rightarrow> column \<Rightarrow> (nat \<Rightarrow> real) \<Rightarrow> nat \<Rightarrow> column \<times> nat" where
  "normalized_direction_with nrm grad_eval draws i =
     (let grad_norm = nrm grad_eval in
      if grad_norm = Fin 0
      then (let grad_norm = fadd grad_norm (Fin ((1 / 10 ^ 6) * sgn (2 * draws i - 1)))
            in (map (\<lambda>x. fdiv x grad_norm) grad_eval, Suc i))
      else (map (\<lambda>x. fdiv x grad_norm) grad_eval, i))"

fun gd_loop_with ::
    "(column \<Rightarrow> float64) \<Rightarrow> (column \<Rightarrow> error + column) \<Rightarrow> (nat \<Rightarrow> real) \<Rightarrow> string \<Rightarrow> real \<Rightarrow>
     nat \<Rightarrow> nat \<Rightarrow> column \<Rightarrow> column list \<Rightarrow> error + column list" where
  "gd_loop_with nrm grad draws version alpha 0 i w w_hist = Inr w_hist"
| "gd_loop_with nrm grad draws version alpha (Suc k) i w w_hist =
     (case grad w of
        Inl e \<Rightarrow> Inl e
      | Inr grad_eval \<Rightarrow>
          if length grad_eval \<noteq> length w then Inl ValueError
          else
            (let (grad_eval, i) =
                   (if version = ''normalized''
                    then normalized_direction_with nrm grad_eval draws i
                    else (grad_eval, i));
                 w = minus_col w (scale alpha grad_eval)
             in gd_loop_with nrm grad draws version alpha k i w (w_hist @ [w])))"

definition gradient_descent_with ::
    "(column \<Rightarrow> float64) \<Rightarrow> (column \<Rightarrow> error + column) \<Rightarrow> (nat \<Rightarrow> real) \<Rightarrow> float64 point \<Rightarrow>
     kwargs \<Rightarrow> error + column list" where
  "gradient_descent_with nrm grad draws w kw =
     (let w = format_w w;
          w_hist = [] @ [w]
      in gd_loop_with nrm grad draws (gd_version kw) (gd_alpha kw) (nat (gd_max_its kw)) 0 w
           w_hist)"

section \<open>Newton's method\<close>

text \<open>
  The arrays of \<^verbatim>\<open>newtons_method\<close> and \<^verbatim>\<open>backtracking\<close> hold reals: a column of
  shape \<open>(n, 1)\<close> is the list of its entries, a matrix the list of its rows.
\<close>

type_synonym vector = "real list"

type_synonym matrix = "real list list"

text \<open>
  \<^verbatim>\<open>hess_val.shape = (np.size(w),np.size(w))\<close>: the entries autograd returns, in row-major
  order, cut into rows; numpy raises when their number is not \<open>r * c\<close>.
\<close>

definition reshape :: "nat \<Rightarrow> nat \<Rightarrow> real list \<Rightarrow> error + matrix" where
  "reshape r c xs =
     (if length xs \<noteq> r * c then Inl ValueError
      else Inr (map (\<lambda>i. take c (drop (i * c) xs)) [0..<r]))"

text \<open>\<^verbatim>\<open>np.eye(n)\<close>, a scalar times a matrix, and the sum of two matrices of one shape.\<close>

definition eye :: "nat \<Rightarrow> matrix" where
  "eye n = map (\<lambda>i. map (\<lambda>j. if i = j then 1 else 0) [0..<n]) [0..<n]"

definition mat_scale :: "real \<Rightarrow> matrix \<Rightarrow> matrix" where
  "mat_scale a M = map (map ((*) a)) M"

definition mat_add :: "matrix \<Rightarrow> matrix \<Rightarrow> matrix" where
  "mat_add A B = map2 (map2 (+)) A B"

text \<open>
  \<^verbatim>\<open>np.dot\<close> of a matrix and a column raises when a row of the matrix has not as many
  entries as the column.
\<close>

definition np_dot :: "matrix \<Rightarrow> vector \<Rightarrow> error + vector" where
  "np_dot A v =
     (if list_ex (\<lambda>row. length row \<noteq> length v) A then Inl ValueError
      else Inr (map (\<lambda>row. sum_list (map2 (*) row v)) A))"

text \<open>
  \<^verbatim>\<open>a - b\<close> for two columns. numpy broadcasts: shapes \<open>(n, 1)\<close> and \<open>(m, 1)\<close> go together
  when \<open>n = m\<close> or one of them is \<open>1\<close>, and raise otherwise.
\<close>

definition np_sub :: "vector \<Rightarrow> vector \<Rightarrow> error + vector" where
  "np_sub a b =
     (if length a = length b then Inr (map2 (-) a b)
      else if length b = 1 then Inr (map (\<lambda>x. x - hd b) a)
      else if length a = 1 then Inr (map (\<lambda>y. hd a - y) b)
      else Inl ValueError)"

text \<open>
  Lines 132 to 137, the candidate of one iteration. \<open>grad\<close> and \<open>hess\<close> are the functions
  \<^verbatim>\<open>compute_grad(g)\<close> and \<^verbatim>\<open>compute_hess(g)\<close> of autograd, \<open>pinv\<close> is
  \<^verbatim>\<open>np.linalg.pinv\<close> of numpy: the three are not code of the repository and are
  parameters of the model.
\<close>

definition newton_step ::
    "(vector \<Rightarrow> vector) \<Rightarrow> (vector \<Rightarrow> real list) \<Rightarrow> (matrix \<Rightarrow> matrix) \<Rightarrow> real \<Rightarrow>
     vector \<Rightarrow> error + vector" where
  "newton_step grad hess pinv epsilon w =
     (let grad_val = grad w;
          hess_val = hess w
      in case reshape (length w) (length w) hess_val of
           Inl e \<Rightarrow> Inl e
         | Inr hess_val \<Rightarrow>
             (case np_dot (pinv (mat_add hess_val (mat_scale epsilon (eye (length w))))) grad_val of
                Inl e \<Rightarrow> Inl e
              | Inr d \<Rightarrow> np_sub w d))"

text \<open>
  Lines 130 to 150, the loop, with the number of iterations left as the counter. A
  candidate whose objective value exceeds \<open>geval_old\<close> ends the run with the history as
  it is.
\<close>

fun newton_loop ::
    "(vector \<Rightarrow> real) \<Rightarrow> (vector \<Rightarrow> vector) \<Rightarrow> (vector \<Rightarrow> real list) \<Rightarrow> (matrix \<Rightarrow> matrix) \<Rightarrow>
     real \<Rightarrow> nat \<Rightarrow> vector \<Rightarrow> real \<Rightarrow> vector list \<Rightarrow> error + vector list" where
  "newton_loop g grad hess pinv epsilon 0 w geval_old w_hist = Inr w_hist"
| "newton_loop g grad hess pinv epsilon (Suc k) w geval_old w_hist =
     (case newton_step grad hess pinv epsilon w of
        Inl e \<Rightarrow> Inl e
      | Inr w \<Rightarrow>
          (let geval_new = g w in
           if geval_new > geval_old then Inr w_hist
           else newton_loop g grad hess pinv epsilon k w geval_new (w_hist @ [w])))"

text \<open>The options of lines 116 to 121, with their defaults, and the function.\<close>

definition nm_max_its :: "kwargs \<Rightarrow> int" where
  "nm_max_its kw = (case kw_max_its kw of Some m \<Rightarrow> m | None \<Rightarrow> 20)"

definition nm_epsilon :: "kwargs \<Rightarrow> real" where
  "nm_epsilon kw = (case kw_epsilon kw of Some e \<Rightarrow> e | None \<Rightarrow> 1 / 10 ^ 5)"

definition newtons_method ::
    "(vector \<Rightarrow> real) \<Rightarrow> (vector \<Rightarrow> vector) \<Rightarrow> (vector \<Rightarrow> real list) \<Rightarrow> (matrix \<Rightarrow> matrix) \<Rightarrow>
     real point \<Rightarrow> kwargs \<Rightarrow> error + vector list" where
  "newtons_method g grad hess pinv w kw =
     (let w = format_w w;
          w_hist = [] @ [w];
          geval_old = g w
      in newton_loop g grad hess pinv (nm_epsilon kw) (nat (nm_max_its kw)) w geval_old w_hist)"

text \<open>
  Lines 124 to 150 again, with an objective that may raise. Line 129,
  \<^verbatim>\<open>geval_old = self.g(w)\<close>, evaluates the objective before the loop, whatever \<open>max_its\<close>
  is, and line 140 evaluates it at every candidate. With an objective that returns, these
  are the definitions above (lemma \<open>newtons_method_with_exact\<close>).
\<close>

fun newton_loop_with ::
    "(vector \<Rightarrow> error + real) \<Rightarrow> (vector \<Rightarrow> vector) \<Rightarrow> (vector \<Rightarrow> real list) \<Rightarrow>
     (matrix \<Rightarrow> matrix) \<Rightarrow> real \<Rightarrow> nat \<Rightarrow> vector \<Rightarrow> real \<Rightarrow> vector list \<Rightarrow>
     error + vector list" where
  "newton_loop_with g grad hess pinv epsilon 0 w geval_old w_hist = Inr w_hist"
| "newton_loop_with g grad hess pinv epsilon (Suc k) w geval_old w_hist =
     (case newton_step grad hess pinv epsilon w of
        Inl e \<Rightarrow> Inl e
      | Inr w \<Rightarrow>
          (case g w of
             Inl e \<Rightarrow> Inl e
           | Inr geval_new \<Rightarrow>
               if geval_new > geval_old then Inr w_hist
               else newton_loop_with g grad hess pinv epsilon k w geval_new (w_hist @ [w])))"

definition newtons_method_with ::
    "(vector \<Rightarrow> error + real) \<Rightarrow> (vector \<Rightarrow> vector) \<Rightarrow> (vector \<Rightarrow> real list) \<Rightarrow>
     (matrix \<Rightarrow> matrix) \<Rightarrow> real point \<Rightarrow> kwargs \<Rightarrow> error + vector list" where
  "newtons_method_with g grad hess pinv w kw =
     (let w = format_w w;
          w_hist = [] @ [w]
      in case g w of
           Inl e \<Rightarrow> Inl e
         | Inr geval_old \<Rightarrow>
             newton_loop_with g grad hess pinv (nm_epsilon kw) (nat (nm_max_its kw)) w geval_old
               w_hist)"

section \<open>Backtracking line search\<close>

text \<open>
  \<^verbatim>\<open>np.linalg.norm\<close> on reals, and lines 96 to 98, the loop. The loop has no counter and
  need not end: it is a partial function, and \<open>None\<close> is the run that never returns.
  \<open>g\<close> is the objective \<^verbatim>\<open>self.g\<close> that the last optimizer call stored.
\<close>

definition rnorm :: "vector \<Rightarrow> real" where
  "rnorm v = sqrt (sum_list (map (\<lambda>x. x * x) v))"

partial_function (option) backtracking_loop ::
    "(vector \<Rightarrow> real) \<Rightarrow> vector \<Rightarrow> vector \<Rightarrow> real \<Rightarrow> real \<Rightarrow> real \<Rightarrow> real \<Rightarrow> (error + real) option" where
  "backtracking_loop g w grad_eval t func_eval grad_norm alpha =
     (case np_sub w (map ((*) alpha) grad_eval) of
        Inl e \<Rightarrow> Some (Inl e)
      | Inr v \<Rightarrow>
          if g v > func_eval - alpha * (1 / 2) * grad_norm
          then backtracking_loop g w grad_eval t func_eval grad_norm (t * alpha)
          else Some (Inr alpha))"

definition backtracking :: "(vector \<Rightarrow> real) \<Rightarrow> vector \<Rightarrow> vector \<Rightarrow> (error + real) option" where
  "backtracking g w grad_eval =
     (let alpha = 1;
          t = 8 / 10;
          func_eval = g w;
          grad_norm = (rnorm grad_eval) ^ 2
      in backtracking_loop g w grad_eval t func_eval grad_norm alpha)"

text \<open>
  The sufficient-decrease condition as the specification words it:
  \<open>objective(w - alpha*grad_eval) \<le> objective(w) - alpha*0.5*||grad_eval||^2\<close>.
\<close>

definition sufficient_decrease :: "(vector \<Rightarrow> real) \<Rightarrow> vector \<Rightarrow> vector \<Rightarrow> real \<Rightarrow> bool" where
  "sufficient_decrease g w grad_eval alpha =
     (case np_sub w (map ((*) alpha) grad_eval) of
        Inl e \<Rightarrow> False
      | Inr v \<Rightarrow> g v \<le> g w - alpha * (1 / 2) * (rnorm grad_eval) ^ 2)"

section \<open>The pseudo-inverse and least-norm solutions\<close>

text \<open>
  The terms in which the specification describes the update of Newton's method. The
  inner product of two columns, a matrix applied to a column (the value of \<^verbatim>\<open>np.dot\<close>),
  matrices of shape \<open>(n, n)\<close>, and the damped Hessian of line 137.
\<close>

definition dot :: "vector \<Rightarrow> vector \<Rightarrow> real" where
  "dot x y = sum_list (map2 (*) x y)"

definition mat_vec :: "matrix \<Rightarrow> vector \<Rightarrow> vector" where
  "mat_vec A x = map (\<lambda>row. sum_list (map2 (*) row x)) A"

definition square_matrix :: "nat \<Rightarrow> matrix \<Rightarrow> bool" where
  "square_matrix n A \<longleftrightarrow> length A = n \<and> list_all (\<lambda>row. length row = n) A"

definition damped :: "real \<Rightarrow> nat \<Rightarrow> matrix \<Rightarrow> matrix" where
  "damped epsilon n H = mat_add H (mat_scale epsilon (eye n))"

text \<open>
  \<open>P\<close> is the Moore-Penrose pseudo-inverse of \<open>A\<close>: the four Penrose equations, written on
  columns. \<open>A P A = A\<close>, \<open>P A P = P\<close>, and \<open>A P\<close> and \<open>P A\<close> are symmetric. This is what
  numpy documents \<^verbatim>\<open>np.linalg.pinv\<close> to compute, up to rounding; numpy is not code of
  the repository.
\<close>

definition moore_penrose :: "nat \<Rightarrow> matrix \<Rightarrow> matrix \<Rightarrow> bool" where
  "moore_penrose n A P \<longleftrightarrow>
     square_matrix n A \<and> square_matrix n P \<and>
     (\<forall>x. length x = n \<longrightarrow> mat_vec A (mat_vec P (mat_vec A x)) = mat_vec A x) \<and>
     (\<forall>x. length x = n \<longrightarrow> mat_vec P (mat_vec A (mat_vec P x)) = mat_vec P x) \<and>
     (\<forall>x y. length x = n \<and> length y = n \<longrightarrow>
        dot (mat_vec A (mat_vec P x)) y = dot x (mat_vec A (mat_vec P y))) \<and>
     (\<forall>x y. length x = n \<and> length y = n \<longrightarrow>
        dot (mat_vec P (mat_vec A x)) y = dot x (mat_vec P (mat_vec A y)))"

text \<open>
  \<open>d\<close> is the least-norm solution of \<open>A x = b\<close>: no \<open>x\<close> has a smaller residual, and no \<open>x\<close>
  with the same residual has a smaller norm.
\<close>

definition residual :: "matrix \<Rightarrow> vector \<Rightarrow> vector \<Rightarrow> vector" where
  "residual A x b = map2 (-) (mat_vec A x) b"

definition least_norm_solution :: "nat \<Rightarrow> matrix \<Rightarrow> vector \<Rightarrow> vector \<Rightarrow> bool" where
  "least_norm_solution n A b d \<longleftrightarrow>
     length d = n \<and>
     (\<forall>x. length x = n \<longrightarrow> rnorm (residual A d b) \<le> rnorm (residual A x b)) \<and>
     (\<forall>x. length x = n \<and> rnorm (residual A x b) = rnorm (residual A d b) \<longrightarrow>
        rnorm d \<le> rnorm x)"

section \<open>Example inputs\<close>

text \<open>
  The objective \<open>2 * w\<close> through its gradient, and options for one normalized step of
  length \<open>1 / 2\<close>.
\<close>

definition example_grad :: "column \<Rightarrow> column" where
  "example_grad v = map (\<lambda>x. Fin 2) v"

definition example_kwargs :: kwargs where
  "example_kwargs = \<lparr>kw_max_its = Some 1, kw_version = Some ''normalized'', kw_alpha = Some (1 / 2),
                      kw_steplength_rule = None, kw_epsilon = None\<rparr>"

text \<open>The gradient of \<open>w\<^sup>2\<close>, and options for one normalized step of the default length.\<close>

definition grad_square :: "column \<Rightarrow> column" where
  "grad_square v = map (fmul (Fin 2)) v"

definition normalized_once :: kwargs where
  "normalized_once = \<lparr>kw_max_its = Some 1, kw_version = Some ''normalized'', kw_alpha = None,
                       kw_steplength_rule = None, kw_epsilon = None\<rparr>"

text \<open>Options with a zero and with a negative iteration count.\<close>

definition zero_its :: kwargs where
  "zero_its = no_kwargs\<lparr>kw_max_its := Some 0\<rparr>"

definition negative_its :: kwargs where
  "negative_its = no_kwargs\<lparr>kw_max_its := Some (- 1)\<rparr>"

text \<open>A gradient and a Hessian of the wrong size.\<close>

definition empty_grad :: "column \<Rightarrow> column" where
  "empty_grad v = []"

definition empty_hess :: "vector \<Rightarrow> real list" where
  "empty_hess v = []"

text \<open>
  An objective that is not callable, through what calling it and calling its gradient
  function raise. And an objective of three weights, \<^verbatim>\<open>np.dot(a, w)\<close> with
  \<open>a = (1, 2, 3)\<close>, which raises at a point of any other size.
\<close>

definition not_callable :: "vector \<Rightarrow> error + real" where
  "not_callable v = Inl TypeError"

definition not_callable_grad :: "column \<Rightarrow> error + column" where
  "not_callable_grad v = Inl TypeError"

definition three_weights :: "vector \<Rightarrow> error + real" where
  "three_weights v = (case np_dot [[1, 2, 3]] v of Inl e \<Rightarrow> Inl e | Inr y \<Rightarrow> Inr (hd y))"

text \<open>
  The pseudo-inverse of a diagonal matrix inverts the nonzero entries and keeps the
  zeros.
\<close>

definition pinv_diagonal :: "matrix \<Rightarrow> matrix" where
  "pinv_diagonal M = map (map (\<lambda>x. if x = 0 then 0 else 1 / x)) M"

text \<open>The concave objective \<open>- w\<^sup>2\<close> in one dimension, and five undamped iterations.\<close>

definition neg_square :: "vector \<Rightarrow> real" where
  "neg_square v = - sum_list (map (\<lambda>x. x * x) v)"

definition neg_square_grad :: "vector \<Rightarrow> vector" where
  "neg_square_grad v = map (\<lambda>x. - 2 * x) v"

definition neg_square_hess :: "vector \<Rightarrow> real list" where
  "neg_square_hess v = [- 2]"

definition undamped :: kwargs where
  "undamped = \<lparr>kw_max_its = Some 5, kw_version = None, kw_alpha = None,
                kw_steplength_rule = None, kw_epsilon = Some 0\<rparr>"

text \<open>
  The objective \<open>w\<^sub>0\<^sup>2\<close> in two dimensions is flat along the second axis: its Hessian is
  singular. Two undamped iterations.
\<close>

definition flat :: "vector \<Rightarrow> real" where
  "flat v = hd v * hd v"

definition flat_grad :: "vector \<Rightarrow> vector" where
  "flat_grad v = [2 * hd v, 0]"

definition flat_hess :: "vector \<Rightarrow> real list" where
  "flat_hess v = [2, 0, 0, 0]"

definition undamped_twice :: kwargs where
  "undamped_twice = no_kwargs\<lparr>kw_max_its := Some 2, kw_epsilon := Some 0\<rparr>"

text \<open>
  The objective \<open>w\<^sub>0\<^sup>2 - w\<^sub>1\<^sup>2 / 2\<close> has the Hessian \<open>diag(2, -1)\<close>; damped with
  \<open>epsilon = 1\<close> it is \<open>diag(3, 0)\<close>, singular. One iteration with that damping.
\<close>

definition saddle :: "vector \<Rightarrow> real" where
  "saddle v = hd v * hd v - (v ! 1) * (v ! 1) / 2"

definition saddle_grad :: "vector \<Rightarrow> vector" where
  "saddle_grad v = [2 * hd v, - (v ! 1)]"

definition saddle_hess :: "vector \<Rightarrow> real list" where
  "saddle_hess v = [2, 0, 0, - 1]"

definition damped_once :: kwargs where
  "damped_once = no_kwargs\<lparr>kw_max_its := Some 1, kw_epsilon := Some 1\<rparr>"

text \<open>Objectives for the line search: the sum of the squares, the sum of the absolute values.\<close>

definition square :: "vector \<Rightarrow> real" where
  "square v = sum_list (map (\<lambda>x. x * x) v)"

definition abs_sum :: "vector \<Rightarrow> real" where
  "abs_sum v = sum_list (map abs v)"

section \<open>Properties of gradient descent\<close>


lemma gd_loop_prefix:
  "gd_loop grad draws version alpha k i w w_hist = Inr hist \<Longrightarrow>
   \<exists>rest. hist = w_hist @ rest \<and> length rest = k"
proof (induction k arbitrary: i w w_hist)
  case 0
  then show ?case by simp
next
  case (Suc k)
  from Suc.prems obtain i' w' where
    "gd_loop grad draws version alpha k i' w' (w_hist @ [w']) = Inr hist"
    by (auto simp: Let_def split: if_splits prod.splits)
  from Suc.IH [OF this] show ?case by auto
qed



lemma normalized_direction_zero:
  "linalg_norm g = Fin 0 \<Longrightarrow>
   normalized_direction g draws i =
     (map (\<lambda>x. fdiv x (Fin ((1 / 10 ^ 6) * sgn (2 * draws i - 1)))) g, Suc i)"
  by (simp add: normalized_direction_def)

lemma length_normalized_direction:
  "length (fst (normalized_direction g draws i)) = length g"
  by (simp add: normalized_direction_def Let_def)


text \<open>The norm of a column of reals, and the unit norm of a normalized gradient.\<close>

lemma foldr_fadd_Fin:
  "foldr fadd (map (\<lambda>x. fmul x x) (map Fin rs)) (Fin 0) = Fin (\<Sum>r\<leftarrow>rs. r * r)"
  by (induction rs) simp_all


lemma sum_list_squares_nonneg: "0 \<le> (\<Sum>r\<leftarrow>rs. r * (r::real))"
  by (induction rs) simp_all

lemma linalg_norm_Fin: "linalg_norm (map Fin rs) = Fin (sqrt (\<Sum>r\<leftarrow>rs. r * r))"
  using sum_list_squares_nonneg [of rs]
  unfolding linalg_norm_def foldr_fadd_Fin by simp


text \<open>The example run: from \<open>5\<close>, one normalized step of length \<open>1 / 2\<close>.\<close>

lemma example_run:
  "gradient_descent example_grad (constant_draws (1 / 4)) (Scalar (Fin 5)) example_kwargs
     = Inr [[Fin 5], [Fin (9 / 2)]]"
  by (simp add: gradient_descent_def example_grad_def example_kwargs_def format_w_def
      gd_version_def gd_alpha_def gd_max_its_def normalized_direction_def linalg_norm_def Let_def
      minus_col_def scale_def)






text \<open>
  The loop with parameters is the loop of the exact norm when the norm is \<open>linalg_norm\<close>
  and the gradient function returns.
\<close>

lemma normalized_direction_with_exact:
  "normalized_direction_with linalg_norm g draws i = normalized_direction g draws i"
  by (simp add: normalized_direction_with_def normalized_direction_def)

lemma gd_loop_with_exact:
  "gd_loop_with linalg_norm (\<lambda>v. Inr (grad v)) draws version alpha k i w w_hist
     = gd_loop grad draws version alpha k i w w_hist"
  by (induction k arbitrary: i w w_hist)
     (simp_all add: Let_def normalized_direction_with_exact split: prod.splits)

lemma gradient_descent_with_exact:
  "gradient_descent_with linalg_norm (\<lambda>v. Inr (grad v)) draws w kw
     = gradient_descent grad draws w kw"
  by (simp add: gradient_descent_with_def gradient_descent_def gd_loop_with_exact)

text \<open>
  The loop does not read the generator when the version is not \<open>normalized\<close>, or when no
  gradient of the run has a computed norm of zero.
\<close>

lemma normalized_direction_with_nonzero:
  "nrm g \<noteq> Fin 0 \<Longrightarrow>
   normalized_direction_with nrm g draws i = (map (\<lambda>x. fdiv x (nrm g)) g, i)"
  by (simp add: normalized_direction_with_def)

lemma gd_loop_with_prefix:
  "gd_loop_with nrm grad draws version alpha k i w w_hist = Inr hist \<Longrightarrow>
   \<exists>rest. hist = w_hist @ rest \<and> length rest = k"
proof (induction k arbitrary: i w w_hist)
  case 0
  then show ?case by simp
next
  case (Suc k)
  from Suc.prems obtain i' w' where
    "gd_loop_with nrm grad draws version alpha k i' w' (w_hist @ [w']) = Inr hist"
    by (auto simp: Let_def split: sum.splits if_splits prod.splits)
  from Suc.IH [OF this] show ?case by auto
qed

lemma gd_loop_with_draws_irrelevant:
  "gd_loop_with nrm grad d1 version alpha k i1 w w_hist = Inr hist \<Longrightarrow> w_hist \<noteq> [] \<Longrightarrow>
   last w_hist = w \<Longrightarrow>
   version \<noteq> ''normalized'' \<or>
     (\<forall>j<k. \<forall>g. grad (hist ! (length w_hist - 1 + j)) = Inr g \<longrightarrow> nrm g \<noteq> Fin 0) \<Longrightarrow>
   gd_loop_with nrm grad d2 version alpha k i2 w w_hist = Inr hist"
proof (induction k arbitrary: i1 i2 w w_hist)
  case 0
  then show ?case by simp
next
  case (Suc k)
  from Suc.prems(1) obtain g where gw: "grad w = Inr g" and len: "length g = length w"
    by (auto split: sum.splits if_splits)
  define e1 where "e1 = (if version = ''normalized'' then normalized_direction_with nrm g d1 i1
                         else (g, i1))"
  define e2 where "e2 = (if version = ''normalized'' then normalized_direction_with nrm g d2 i2
                         else (g, i2))"
  define w' where "w' = minus_col w (scale alpha (fst e1))"
  from Suc.prems(1) gw len have
    run: "gd_loop_with nrm grad d1 version alpha k (snd e1) w' (w_hist @ [w']) = Inr hist"
    by (auto simp: Let_def e1_def w'_def split: if_splits prod.splits)
  from gd_loop_with_prefix [OF run] obtain rest where hist: "hist = (w_hist @ [w']) @ rest"
    by blast
  have at_p: "hist ! (length w_hist - 1) = w"
    using Suc.prems(2,3) by (simp add: hist nth_append last_conv_nth)
  have same: "fst e2 = fst e1"
  proof (cases "version = ''normalized''")
    case True
    with Suc.prems(4) have
      "\<forall>g. grad (hist ! (length w_hist - 1 + 0)) = Inr g \<longrightarrow> nrm g \<noteq> Fin 0"
      by blast
    with at_p gw have "nrm g \<noteq> Fin 0" by simp
    then show ?thesis by (simp add: e1_def e2_def True normalized_direction_with_nonzero)
  next
    case False
    then show ?thesis by (simp add: e1_def e2_def)
  qed
  have shifted: "version \<noteq> ''normalized'' \<or>
     (\<forall>j<k. \<forall>g. grad (hist ! (length (w_hist @ [w']) - 1 + j)) = Inr g \<longrightarrow> nrm g \<noteq> Fin 0)"
  proof (cases "version = ''normalized''")
    case True
    with Suc.prems(4) have
      all: "\<forall>j<Suc k. \<forall>g. grad (hist ! (length w_hist - 1 + j)) = Inr g \<longrightarrow> nrm g \<noteq> Fin 0"
      by blast
    have "\<forall>g. grad (hist ! (length (w_hist @ [w']) - 1 + j)) = Inr g \<longrightarrow> nrm g \<noteq> Fin 0"
      if "j < k" for j
    proof -
      from that have "Suc j < Suc k" by simp
      with all have
        nz: "\<forall>g. grad (hist ! (length w_hist - 1 + Suc j)) = Inr g \<longrightarrow> nrm g \<noteq> Fin 0"
        by blast
      have eq: "length w_hist - 1 + Suc j = length (w_hist @ [w']) - 1 + j"
        using Suc.prems(2) by simp
      show ?thesis using nz unfolding eq .
    qed
    then show ?thesis by blast
  next
    case False
    then show ?thesis by blast
  qed
  have "gd_loop_with nrm grad d2 version alpha k (snd e2) w' (w_hist @ [w']) = Inr hist"
    by (rule Suc.IH [OF run _ _ shifted]) simp_all
  then show ?case
    using gw len same by (auto simp: Let_def e2_def [symmetric] w'_def split: prod.splits)
qed

text \<open>
  The square of \<open>1 / 2 ^ 537\<close> is the smallest positive float64, the square of
  \<open>1 / 2 ^ 538\<close> underflows. The norm that float64 computes is \<open>2\<close> for the gradient of
  the example. It is zero for the gradient \<open>2 a\<close> of \<open>w\<^sup>2\<close> at a point \<open>a\<close> so small that
  the square of \<open>2 a\<close> underflows, and the step then divides by \<open>10\<^sup>-\<^sup>6\<close> times the sign
  of a draw.
\<close>

lemma square_f64_boundary:
  "square_f64 (Fin (1 / 2 ^ 537)) = Fin (1 / 2 ^ 1074) \<and> square_f64 (Fin (1 / 2 ^ 538)) = Fin 0"
  by (simp add: square_f64_def)

lemma example_grad_norm_f64: "linalg_norm_f64 (example_grad [Fin 5]) = Fin 2"
  by (simp add: linalg_norm_f64_def square_f64_def example_grad_def)

lemma example_run_f64:
  "gradient_descent_with linalg_norm_f64 (\<lambda>v. Inr (example_grad v)) (constant_draws r)
     (Scalar (Fin 5)) example_kwargs = Inr [[Fin 5], [Fin (9 / 2)]]"
  by (simp add: gradient_descent_with_def gd_max_its_def gd_version_def gd_alpha_def
      example_kwargs_def format_w_def Let_def example_grad_def linalg_norm_f64_def
      square_f64_def normalized_direction_with_def minus_col_def scale_def)

lemma underflow_norm_f64:
  "(2 * a) * (2 * a) \<le> 1 / 2 ^ 1075 \<Longrightarrow> linalg_norm_f64 (grad_square [Fin a]) = Fin 0"
  by (simp add: linalg_norm_f64_def square_f64_def grad_square_def)

lemma underflow_run:
  assumes "(2 * a) * (2 * a) \<le> 1 / 2 ^ 1075"
  shows "gradient_descent_with linalg_norm_f64 (\<lambda>v. Inr (grad_square v)) (constant_draws r)
           (Scalar (Fin a)) example_kwargs
         = Inr [[Fin a],
                [fsub (Fin a) (fmul (Fin (1 / 2))
                   (fdiv (Fin (2 * a)) (Fin ((1 / 10 ^ 6) * sgn (2 * r - 1)))))]]"
proof -
  have n: "linalg_norm_f64 (grad_square [Fin a]) = Fin 0"
    by (rule underflow_norm_f64 [OF assms])
  have g: "grad_square [Fin a] = [Fin (2 * a)]" by (simp add: grad_square_def)
  have d: "normalized_direction_with linalg_norm_f64 (grad_square [Fin a]) (constant_draws r) 0
        = ([fdiv (Fin (2 * a)) (Fin ((1 / 10 ^ 6) * sgn (2 * r - 1)))], Suc 0)"
    unfolding normalized_direction_with_def n by (simp add: g constant_draws_def)
  have len: "length (grad_square [Fin a]) = length [Fin a]" by (simp add: g)
  have "gd_loop_with linalg_norm_f64 (\<lambda>v. Inr (grad_square v)) (constant_draws r)
          ''normalized'' (1 / 2) (Suc 0) 0 [Fin a] [[Fin a]]
        = Inr [[Fin a],
               [fsub (Fin a) (fmul (Fin (1 / 2))
                  (fdiv (Fin (2 * a)) (Fin ((1 / 10 ^ 6) * sgn (2 * r - 1)))))]]"
    by (simp add: d len minus_col_def scale_def del: fdiv.simps fsub.simps fmul.simps)
  then show ?thesis
    by (simp add: gradient_descent_with_def gd_max_its_def gd_version_def gd_alpha_def
        example_kwargs_def format_w_def Let_def)
qed

lemma tiny_square: "(2 * (1 / 2 ^ 600)) * (2 * (1 / 2 ^ 600)) \<le> (1 / 2 ^ 1075 :: real)"
  by simp

text \<open>
  Claim C8 takes a nonzero gradient at every iterate to keep a normalized run off the
  random path. It does not: at \<open>w = 1 / 2 ^ 600\<close> the gradient of \<open>w\<^sup>2\<close> is
  \<open>2 / 2 ^ 600\<close>, not zero, its square underflows, and the norm that float64 computes is
  zero. Two calls with the same objective, initial point and options (one normalized step
  of length \<open>1 / 2\<close>) return different histories when their draws fall on different
  sides of \<open>1 / 2\<close>.
\<close>

theorem nonzero_gradient_zero_norm:
  "grad_square [Fin (1 / 2 ^ 600)] = [Fin (2 / 2 ^ 600)] \<and>
   Fin (2 / 2 ^ 600) \<noteq> Fin 0 \<and>
   gradient_descent_with linalg_norm_f64 (\<lambda>v. Inr (grad_square v)) (constant_draws (1 / 4))
     (Scalar (Fin (1 / 2 ^ 600))) example_kwargs
     = Inr [[Fin (1 / 2 ^ 600)], [Fin (1000001 / 2 ^ 600)]] \<and>
   gradient_descent_with linalg_norm_f64 (\<lambda>v. Inr (grad_square v)) (constant_draws (3 / 4))
     (Scalar (Fin (1 / 2 ^ 600))) example_kwargs
     = Inr [[Fin (1 / 2 ^ 600)], [Fin (- 999999 / 2 ^ 600)]] \<and>
   gradient_descent_with linalg_norm_f64 (\<lambda>v. Inr (grad_square v)) (constant_draws (1 / 4))
     (Scalar (Fin (1 / 2 ^ 600))) example_kwargs
   \<noteq> gradient_descent_with linalg_norm_f64 (\<lambda>v. Inr (grad_square v)) (constant_draws (3 / 4))
     (Scalar (Fin (1 / 2 ^ 600))) example_kwargs"
proof -
  have g: "grad_square [Fin (1 / 2 ^ 600)] = [Fin (2 / 2 ^ 600)]"
    by (simp add: grad_square_def)
  have nz: "Fin (2 / 2 ^ 600) \<noteq> Fin 0" by simp
  have r1: "gradient_descent_with linalg_norm_f64 (\<lambda>v. Inr (grad_square v))
      (constant_draws (1 / 4)) (Scalar (Fin (1 / 2 ^ 600))) example_kwargs
      = Inr [[Fin (1 / 2 ^ 600)], [Fin (1000001 / 2 ^ 600)]]"
    unfolding underflow_run [OF tiny_square] by simp
  have r2: "gradient_descent_with linalg_norm_f64 (\<lambda>v. Inr (grad_square v))
      (constant_draws (3 / 4)) (Scalar (Fin (1 / 2 ^ 600))) example_kwargs
      = Inr [[Fin (1 / 2 ^ 600)], [Fin (- 999999 / 2 ^ 600)]]"
    unfolding underflow_run [OF tiny_square] by simp
  have ne: "gradient_descent_with linalg_norm_f64 (\<lambda>v. Inr (grad_square v))
      (constant_draws (1 / 4)) (Scalar (Fin (1 / 2 ^ 600))) example_kwargs
    \<noteq> gradient_descent_with linalg_norm_f64 (\<lambda>v. Inr (grad_square v))
      (constant_draws (3 / 4)) (Scalar (Fin (1 / 2 ^ 600))) example_kwargs"
    unfolding r1 r2 by simp
  from g nz r1 r2 ne show ?thesis by blast
qed

text \<open>
  Claim C8, amended. Two calls of \<^verbatim>\<open>gradient_descent\<close> with the same gradient function,
  initial point and options, whatever their two generators draw, return the same history
  when the version is not \<open>normalized\<close>, or when the norm that the code computes of the
  gradient is not zero at any iterate. This holds for every norm function, the exact one
  and the one of float64.
\<close>

theorem gradient_descent_deterministic:
  assumes "gradient_descent_with nrm grad draws1 w kw = Inr hist"
    and "gd_version kw \<noteq> ''normalized'' \<or>
         (\<forall>k<nat (gd_max_its kw). \<forall>g. grad (hist ! k) = Inr g \<longrightarrow> nrm g \<noteq> Fin 0)"
  shows "gradient_descent_with nrm grad draws2 w kw = Inr hist"
proof -
  from assms(1) have
    run: "gd_loop_with nrm grad draws1 (gd_version kw) (gd_alpha kw) (nat (gd_max_its kw)) 0
            (format_w w) [format_w w] = Inr hist"
    by (simp add: gradient_descent_with_def Let_def)
  have "gd_loop_with nrm grad draws2 (gd_version kw) (gd_alpha kw) (nat (gd_max_its kw)) 0
            (format_w w) [format_w w] = Inr hist"
    by (rule gd_loop_with_draws_irrelevant [OF run]) (use assms(2) in simp_all)
  then show ?thesis by (simp add: gradient_descent_with_def Let_def)
qed

theorem gradient_descent_deterministic_witness:
  "gradient_descent_with linalg_norm_f64 (\<lambda>v. Inr (example_grad v)) (constant_draws (1 / 4))
     (Scalar (Fin 5)) example_kwargs = Inr [[Fin 5], [Fin (9 / 2)]] \<and>
   nat (gd_max_its example_kwargs) = 1 \<and>
   linalg_norm_f64 (example_grad ([[Fin 5], [Fin (9 / 2)]] ! 0)) \<noteq> Fin 0 \<and>
   gradient_descent_with linalg_norm_f64 (\<lambda>v. Inr (example_grad v)) (constant_draws (3 / 4))
     (Scalar (Fin 5)) example_kwargs = Inr [[Fin 5], [Fin (9 / 2)]]"
proof -
  have m: "nat (gd_max_its example_kwargs) = 1"
    by (simp add: gd_max_its_def example_kwargs_def)
  have n: "linalg_norm_f64 (example_grad ([[Fin 5], [Fin (9 / 2)]] ! 0)) \<noteq> Fin 0"
    by (simp add: example_grad_norm_f64)
  have h: "\<forall>k<nat (gd_max_its example_kwargs). \<forall>g.
      (\<lambda>v. Inr (example_grad v)) ([[Fin 5], [Fin (9 / 2)]] ! k) = Inr g \<longrightarrow>
      linalg_norm_f64 g \<noteq> Fin 0"
    using n by (auto simp: m)
  note r = example_run_f64 [of "1 / 4"]
  note t = gradient_descent_deterministic [OF r disjI2, OF h, of "constant_draws (3 / 4)"]
  from t r m n show ?thesis by blast
qed

text \<open>Every iterate has the size of the initial point.\<close>

lemma gd_loop_dimension:
  "gd_loop grad draws version alpha k i w w_hist = Inr hist \<Longrightarrow> length w = n \<Longrightarrow>
   \<forall>v\<in>set w_hist. length v = n \<Longrightarrow> \<forall>v\<in>set hist. length v = n"
proof (induction k arbitrary: i w w_hist)
  case 0
  then show ?case by simp
next
  case (Suc k)
  define e where "e = (if version = ''normalized'' then normalized_direction (grad w) draws i
                       else (grad w, i))"
  define w' where "w' = minus_col w (scale alpha (fst e))"
  from Suc.prems(1) have len: "length (grad w) = length w"
    by (auto simp: Let_def split: if_splits)
  from Suc.prems(1) len have run: "gd_loop grad draws version alpha k (snd e) w' (w_hist @ [w']) = Inr hist"
    by (auto simp: Let_def e_def w'_def split: if_splits prod.splits)
  have "length (fst e) = length w"
    using len by (simp add: e_def length_normalized_direction)
  then have w': "length w' = n"
    using Suc.prems(2) by (simp add: w'_def minus_col_def scale_def)
  show ?case
    by (rule Suc.IH [OF run w']) (use Suc.prems(3) w' in auto)
qed

lemma length_format_w: "length (format_w w) = np_size w"
  by (cases w) (simp_all add: format_w_def)

lemma gradient_descent_first_and_dimension:
  assumes "gradient_descent grad draws w kw = Inr hist"
  shows "hd hist = format_w w \<and> (\<forall>v\<in>set hist. length v = np_size w)"
proof -
  from assms have
    run: "gd_loop grad draws (gd_version kw) (gd_alpha kw) (nat (gd_max_its kw)) 0
            (format_w w) [format_w w] = Inr hist"
    by (simp add: gradient_descent_def Let_def)
  from gd_loop_prefix [OF run] have "hd hist = format_w w" by auto
  moreover have "\<forall>v\<in>set hist. length v = np_size w"
    by (rule gd_loop_dimension [OF run]) (simp_all add: length_format_w)
  ultimately show ?thesis by blast
qed

text \<open>
  The zero gradient in the normalized version. A draw other than \<open>1 / 2\<close> gives the norm
  \<open>10\<^sup>-\<^sup>6\<close> or \<open>- 10\<^sup>-\<^sup>6\<close>, the direction zero, and the step leaves the iterate as it is.
\<close>

lemma normalized_direction_zero_gradient:
  "draws i \<noteq> 1 / 2 \<Longrightarrow>
   normalized_direction (replicate n (Fin 0)) draws i = (replicate n (Fin 0), Suc i)"
proof -
  assume r: "draws i \<noteq> 1 / 2"
  have "replicate n (Fin 0) = map Fin (replicate n 0)" by simp
  then have "linalg_norm (replicate n (Fin 0)) = Fin (sqrt (\<Sum>r\<leftarrow>replicate n (0::real). r * r))"
    by (simp only: linalg_norm_Fin)
  also have "(\<Sum>r\<leftarrow>replicate n (0::real). r * r) = 0"
    by (induction n) simp_all
  finally have n0: "linalg_norm (replicate n (Fin 0)) = Fin 0" by simp
  from r have "sgn (2 * draws i - 1) \<noteq> 0" by (simp add: sgn_if)
  then show ?thesis
    by (simp add: normalized_direction_zero [OF n0] map_replicate_const)
qed

lemma minus_col_zero_direction:
  "minus_col w (scale alpha (replicate (length w) (Fin 0))) = w"
proof -
  have "fsub x (Fin 0) = x" for x by (cases x) simp_all
  then show ?thesis
    by (induction w) (simp_all add: minus_col_def scale_def)
qed

text \<open>
  Claim C10. In the normalized version, a zero norm is replaced by a nonzero value before
  the division, so that a zero gradient leaves the iterate unchanged. The code misses the
  draw \<open>1 / 2\<close>: \<open>sign(2 * (1 / 2) - 1)\<close> is \<open>0\<close>, the norm stays \<open>0\<close>, the division is
  \<open>0 / 0\<close>, and the next iterate is nan. The run below starts \<open>w\<^sup>2\<close> at \<open>0\<close>.
\<close>

theorem gradient_descent_zero_gradient_half_draw:
  "gradient_descent grad_square (constant_draws (1 / 2)) (Scalar (Fin 0)) normalized_once
     = Inr [[Fin 0], [NaN]]"
  by (simp add: gradient_descent_def grad_square_def normalized_once_def format_w_def
      constant_draws_def gd_version_def gd_alpha_def gd_max_its_def normalized_direction_def linalg_norm_def Let_def
      minus_col_def scale_def)

section \<open>Properties of Newton's method\<close>

text \<open>
  The invariant of the loop: the history grows by accepted candidates only, each the
  Newton step of the one before it and no worse; a run that stops short stops at a
  candidate that is worse.
\<close>

lemma newton_loop_inv:
  "newton_loop g grad hess pinv epsilon k w geval_old w_hist = Inr hist \<Longrightarrow>
   w_hist \<noteq> [] \<Longrightarrow> last w_hist = w \<Longrightarrow> geval_old = g w \<Longrightarrow>
   \<exists>rest. hist = w_hist @ rest \<and> length rest \<le> k \<and>
     (length rest < k \<longrightarrow>
        (\<exists>cand. newton_step grad hess pinv epsilon (last hist) = Inr cand \<and>
                g cand > g (last hist))) \<and>
     (\<forall>j<length rest.
        newton_step grad hess pinv epsilon (hist ! (length w_hist - 1 + j))
          = Inr (hist ! (length w_hist + j)) \<and>
        g (hist ! (length w_hist + j)) \<le> g (hist ! (length w_hist - 1 + j)))"
proof (induction k arbitrary: w geval_old w_hist)
  case 0
  then show ?case by simp
next
  case (Suc k)
  from Suc.prems(1) obtain w' where step: "newton_step grad hess pinv epsilon w = Inr w'"
    by (cases "newton_step grad hess pinv epsilon w") simp_all
  show ?case
  proof (cases "g w' > g w")
    case True
    with Suc.prems(1,4) step have "hist = w_hist" by (simp add: Let_def)
    with True step Suc.prems(3) show ?thesis by auto
  next
    case False
    with Suc.prems(1,4) step have
      run: "newton_loop g grad hess pinv epsilon k w' (g w') (w_hist @ [w']) = Inr hist"
      by (simp add: Let_def)
    from Suc.IH [OF run] obtain rest where
      hist: "hist = (w_hist @ [w']) @ rest" and len: "length rest \<le> k" and
      short: "length rest < k \<longrightarrow>
        (\<exists>cand. newton_step grad hess pinv epsilon (last hist) = Inr cand \<and>
                g cand > g (last hist))" and
      steps: "\<forall>j<length rest.
        newton_step grad hess pinv epsilon (hist ! (length (w_hist @ [w']) - 1 + j))
          = Inr (hist ! (length (w_hist @ [w']) + j)) \<and>
        g (hist ! (length (w_hist @ [w']) + j)) \<le> g (hist ! (length (w_hist @ [w']) - 1 + j))"
      by auto
    have at_p: "hist ! (length w_hist - 1) = w"
      using Suc.prems(2,3) by (simp add: hist nth_append last_conv_nth)
    have at_Sp: "hist ! (length w_hist) = w'"
      by (simp add: hist nth_append)
    have all: "newton_step grad hess pinv epsilon (hist ! (length w_hist - 1 + j))
          = Inr (hist ! (length w_hist + j)) \<and>
        g (hist ! (length w_hist + j)) \<le> g (hist ! (length w_hist - 1 + j))"
      if "j < length (w' # rest)" for j
    proof (cases j)
      case 0
      with at_p at_Sp step False show ?thesis by simp
    next
      case (Suc j')
      with that have "j' < length rest" by simp
      with steps have
        "newton_step grad hess pinv epsilon (hist ! (length (w_hist @ [w']) - 1 + j'))
          = Inr (hist ! (length (w_hist @ [w']) + j')) \<and>
        g (hist ! (length (w_hist @ [w']) + j')) \<le> g (hist ! (length (w_hist @ [w']) - 1 + j'))"
        by blast
      moreover have "length (w_hist @ [w']) - 1 + j' = length w_hist - 1 + j"
        "length (w_hist @ [w']) + j' = length w_hist + j"
        using Suc.prems(2) Suc by simp_all
      ultimately show ?thesis by (simp only:)
    qed
    have "hist = w_hist @ (w' # rest)" by (simp add: hist)
    moreover have "length (w' # rest) \<le> Suc k" using len by simp
    moreover have "length (w' # rest) < Suc k \<longrightarrow>
        (\<exists>cand. newton_step grad hess pinv epsilon (last hist) = Inr cand \<and>
                g cand > g (last hist))"
      using short by simp
    ultimately show ?thesis using all by blast
  qed
qed

lemma newton_loop_prefix:
  "newton_loop g grad hess pinv epsilon k w geval_old w_hist = Inr hist \<Longrightarrow>
   \<exists>rest. hist = w_hist @ rest"
proof (induction k arbitrary: w geval_old w_hist)
  case 0
  then show ?case by simp
next
  case (Suc k)
  from Suc.prems obtain w' where step: "newton_step grad hess pinv epsilon w = Inr w'"
    by (cases "newton_step grad hess pinv epsilon w") simp_all
  show ?case
  proof (cases "g w' > geval_old")
    case True
    with Suc.prems step show ?thesis by (simp add: Let_def)
  next
    case False
    with Suc.prems step have
      "newton_loop g grad hess pinv epsilon k w' (g w') (w_hist @ [w']) = Inr hist"
      by (simp add: Let_def)
    from Suc.IH [OF this] show ?thesis by auto
  qed
qed

text \<open>The example runs: \<open>- w\<^sup>2\<close> diverges at once; the flat objective is solved in one step.\<close>

lemma neg_square_step:
  "newton_step neg_square_grad neg_square_hess pinv_diagonal 0 [5] = Inr [0]"
  by (simp add: newton_step_def neg_square_grad_def neg_square_hess_def pinv_diagonal_def
      reshape_def eye_def mat_scale_def mat_add_def np_dot_def np_sub_def)

lemma neg_square_run:
  "newtons_method neg_square neg_square_grad neg_square_hess pinv_diagonal (Scalar 5) undamped
     = Inr [[5]]"
  by (simp add: newtons_method_def nm_epsilon_def nm_max_its_def undamped_def format_w_def
      eval_nat_numeral neg_square_step) (simp add: neg_square_def)

lemma flat_step:
  "newton_step flat_grad flat_hess pinv_diagonal 0 [a, b] = Inr [0, b]"
  by (simp add: newton_step_def flat_grad_def flat_hess_def pinv_diagonal_def
      reshape_def eye_def mat_scale_def mat_add_def np_dot_def np_sub_def upt_rec)

lemma flat_run:
  "newtons_method flat flat_grad flat_hess pinv_diagonal (Sequence [5, 3]) undamped_twice
     = Inr [[5, 3], [0, 3], [0, 3]]"
  by (simp add: newtons_method_def nm_epsilon_def nm_max_its_def undamped_twice_def no_kwargs_def
      format_w_def eval_nat_numeral flat_step flat_def)

lemma pinv_diagonal_length: "\<forall>M. length (pinv_diagonal M) = length M"
  by (simp add: pinv_diagonal_def)

text \<open>
  Claim C2. For a non-negative \<open>max_its\<close>, a returned history of \<^verbatim>\<open>newtons_method\<close> has
  at most \<open>max_its + 1\<close> elements; when it has fewer, the candidate computed from its last
  element has a larger objective value than that element (the candidate is not in the
  history); and every element after the first is the candidate computed from the one
  before it, with an objective value that is not larger.
\<close>

theorem newtons_method_divergence_stop:
  assumes "newtons_method g grad hess pinv w kw = Inr hist" and "0 \<le> nm_max_its kw"
  shows "int (length hist) \<le> nm_max_its kw + 1 \<and>
    (int (length hist) < nm_max_its kw + 1 \<longrightarrow>
       (\<exists>cand. newton_step grad hess pinv (nm_epsilon kw) (last hist) = Inr cand \<and>
               g cand > g (last hist))) \<and>
    (\<forall>j. Suc j < length hist \<longrightarrow>
       newton_step grad hess pinv (nm_epsilon kw) (hist ! j) = Inr (hist ! Suc j) \<and>
       \<not> g (hist ! Suc j) > g (hist ! j))"
proof -
  from assms(1) have
    run: "newton_loop g grad hess pinv (nm_epsilon kw) (nat (nm_max_its kw)) (format_w w)
            (g (format_w w)) [format_w w] = Inr hist"
    by (simp add: newtons_method_def Let_def)
  from newton_loop_inv [OF run] obtain rest where
    hist: "hist = [format_w w] @ rest" and len: "length rest \<le> nat (nm_max_its kw)" and
    short: "length rest < nat (nm_max_its kw) \<longrightarrow>
        (\<exists>cand. newton_step grad hess pinv (nm_epsilon kw) (last hist) = Inr cand \<and>
                g cand > g (last hist))" and
    steps: "\<forall>j<length rest.
        newton_step grad hess pinv (nm_epsilon kw) (hist ! (length [format_w w] - 1 + j))
          = Inr (hist ! (length [format_w w] + j)) \<and>
        g (hist ! (length [format_w w] + j)) \<le> g (hist ! (length [format_w w] - 1 + j))"
    by auto
  have l: "length hist = Suc (length rest)" by (simp add: hist)
  have "int (length hist) \<le> nm_max_its kw + 1"
    using len assms(2) l by simp
  moreover have "int (length hist) < nm_max_its kw + 1 \<longrightarrow>
       (\<exists>cand. newton_step grad hess pinv (nm_epsilon kw) (last hist) = Inr cand \<and>
               g cand > g (last hist))"
    using short assms(2) l by auto
  moreover have "\<forall>j. Suc j < length hist \<longrightarrow>
       newton_step grad hess pinv (nm_epsilon kw) (hist ! j) = Inr (hist ! Suc j) \<and>
       \<not> g (hist ! Suc j) > g (hist ! j)"
  proof (intro allI impI)
    fix j assume "Suc j < length hist"
    with l have "j < length rest" by simp
    with steps have "newton_step grad hess pinv (nm_epsilon kw) (hist ! (length [format_w w] - 1 + j))
          = Inr (hist ! (length [format_w w] + j)) \<and>
        g (hist ! (length [format_w w] + j)) \<le> g (hist ! (length [format_w w] - 1 + j))"
      by blast
    then show "newton_step grad hess pinv (nm_epsilon kw) (hist ! j) = Inr (hist ! Suc j) \<and>
       \<not> g (hist ! Suc j) > g (hist ! j)"
      by simp
  qed
  ultimately show ?thesis by blast
qed

theorem newtons_method_divergence_stop_witness:
  "newtons_method neg_square neg_square_grad neg_square_hess pinv_diagonal (Scalar 5) undamped
     = Inr [[5]] \<and>
   0 \<le> nm_max_its undamped \<and>
   int (length [[5::real]]) \<le> nm_max_its undamped + 1 \<and>
   int (length [[5::real]]) < nm_max_its undamped + 1 \<and>
   (\<exists>cand. newton_step neg_square_grad neg_square_hess pinv_diagonal (nm_epsilon undamped)
              (last [[5]]) = Inr cand \<and>
           neg_square cand > neg_square (last [[5]]))"
proof -
  have h: "0 \<le> nm_max_its undamped"
    by (simp add: nm_max_its_def undamped_def)
  have s: "int (length [[5::real]]) < nm_max_its undamped + 1"
    by (simp add: nm_max_its_def undamped_def)
  note t = newtons_method_divergence_stop [OF neg_square_run h]
  from t s h neg_square_run show ?thesis by blast
qed

text \<open>
  The Newton step keeps the size of the iterate, when the pseudo-inverse of a matrix has
  as many rows as the matrix.
\<close>

lemma length_reshape: "reshape r c xs = Inr M \<Longrightarrow> length M = r"
  by (auto simp: reshape_def split: if_splits)

lemma newton_step_dimension:
  assumes "newton_step grad hess pinv epsilon w = Inr w'"
    and "\<forall>M. length (pinv M) = length M"
  shows "length w' = length w"
proof -
  from assms(1) obtain H d where
    H: "reshape (length w) (length w) (hess w) = Inr H" and
    d: "np_dot (pinv (mat_add H (mat_scale epsilon (eye (length w))))) (grad w) = Inr d" and
    s: "np_sub w d = Inr w'"
    by (auto simp: newton_step_def Let_def split: sum.splits)
  have "length (mat_add H (mat_scale epsilon (eye (length w)))) = length w"
    using length_reshape [OF H] by (simp add: mat_add_def mat_scale_def eye_def)
  with assms(2) have "length (pinv (mat_add H (mat_scale epsilon (eye (length w))))) = length w"
    by simp
  with d have "length d = length w"
    by (auto simp: np_dot_def split: if_splits)
  with s show ?thesis by (auto simp: np_sub_def)
qed

lemma newton_loop_dimension:
  "newton_loop g grad hess pinv epsilon k w geval_old w_hist = Inr hist \<Longrightarrow>
   \<forall>M. length (pinv M) = length M \<Longrightarrow> length w = n \<Longrightarrow>
   \<forall>v\<in>set w_hist. length v = n \<Longrightarrow> \<forall>v\<in>set hist. length v = n"
proof (induction k arbitrary: w geval_old w_hist)
  case 0
  then show ?case by simp
next
  case (Suc k)
  from Suc.prems(1) obtain w' where step: "newton_step grad hess pinv epsilon w = Inr w'"
    by (cases "newton_step grad hess pinv epsilon w") simp_all
  from newton_step_dimension [OF step Suc.prems(2)] Suc.prems(3) have w': "length w' = n"
    by simp
  show ?case
  proof (cases "g w' > geval_old")
    case True
    with Suc.prems(1) step have "hist = w_hist" by (simp add: Let_def)
    with Suc.prems(4) show ?thesis by simp
  next
    case False
    with Suc.prems(1) step have
      run: "newton_loop g grad hess pinv epsilon k w' (g w') (w_hist @ [w']) = Inr hist"
      by (simp add: Let_def)
    show ?thesis
      by (rule Suc.IH [OF run Suc.prems(2) w']) (use Suc.prems(4) w' in auto)
  qed
qed

text \<open>
  Claim C5. The first element of a history returned by \<^verbatim>\<open>gradient_descent\<close> or by
  \<^verbatim>\<open>newtons_method\<close> is the initial point as a column, and every element has the size
  \<open>n\<close> of the initial point. For \<^verbatim>\<open>newtons_method\<close> the pseudo-inverse is taken to return
  as many rows as its argument has, as numpy's does.
\<close>

theorem history_first_and_dimension:
  "(gradient_descent grad draws w kw = Inr hist \<longrightarrow>
      hd hist = format_w w \<and> (\<forall>v\<in>set hist. length v = np_size w)) \<and>
   (newtons_method g ngrad hess pinv w' kw' = Inr hist' \<and> (\<forall>M. length (pinv M) = length M) \<longrightarrow>
      hd hist' = format_w w' \<and> (\<forall>v\<in>set hist'. length v = np_size w'))"
proof (intro conjI impI)
  assume "gradient_descent grad draws w kw = Inr hist"
  from gradient_descent_first_and_dimension [OF this]
  show "hd hist = format_w w" and "\<forall>v\<in>set hist. length v = np_size w" by simp_all
next
  assume a: "newtons_method g ngrad hess pinv w' kw' = Inr hist' \<and> (\<forall>M. length (pinv M) = length M)"
  then have
    run: "newton_loop g ngrad hess pinv (nm_epsilon kw') (nat (nm_max_its kw')) (format_w w')
            (g (format_w w')) [format_w w'] = Inr hist'"
    by (simp add: newtons_method_def Let_def)
  from newton_loop_prefix [OF run] show "hd hist' = format_w w'" by auto
  show "\<forall>v\<in>set hist'. length v = np_size w'"
    by (rule newton_loop_dimension [OF run]) (use a in \<open>simp_all add: length_format_w\<close>)
qed

theorem history_first_and_dimension_witness:
  "gradient_descent example_grad (constant_draws (1 / 4)) (Scalar (Fin 5)) example_kwargs
     = Inr [[Fin 5], [Fin (9 / 2)]] \<and>
   hd [[Fin 5], [Fin (9 / 2)]] = format_w (Scalar (Fin 5)) \<and>
   length [Fin 5] = np_size (Scalar (Fin 5)) \<and>
   length [Fin (9 / 2)] = np_size (Scalar (Fin 5)) \<and>
   newtons_method flat flat_grad flat_hess pinv_diagonal (Sequence [5, 3]) undamped_twice
     = Inr [[5, 3], [0, 3], [0, 3]] \<and>
   (\<forall>M. length (pinv_diagonal M) = length M) \<and>
   hd [[5, 3], [0, 3], [0, 3]] = format_w (Sequence [5, 3 :: real]) \<and>
   length [5, 3 :: real] = np_size (Sequence [5, 3 :: real]) \<and>
   length [0, 3 :: real] = np_size (Sequence [5, 3 :: real])"
proof -
  note t = history_first_and_dimension [of example_grad "constant_draws (1 / 4)" "Scalar (Fin 5)"
      example_kwargs "[[Fin 5], [Fin (9 / 2)]]" flat flat_grad flat_hess pinv_diagonal
      "Sequence [5, 3]" undamped_twice "[[5, 3], [0, 3], [0, 3]]"]
  from t example_run have g1: "hd [[Fin 5], [Fin (9 / 2)]] = format_w (Scalar (Fin 5))"
    and g2: "\<forall>v\<in>set [[Fin 5], [Fin (9 / 2)]]. length v = np_size (Scalar (Fin 5))"
    by blast+
  from t flat_run pinv_diagonal_length
  have n1: "hd [[5, 3], [0, 3], [0, 3]] = format_w (Sequence [5, 3 :: real])"
    and n2: "\<forall>v\<in>set [[5, 3], [0, 3], [0, 3 :: real]]. length v = np_size (Sequence [5, 3 :: real])"
    by blast+
  have m: "[Fin 5] \<in> set [[Fin 5], [Fin (9 / 2)]]" "[Fin (9 / 2)] \<in> set [[Fin 5], [Fin (9 / 2)]]"
    "[5, 3] \<in> set [[5, 3], [0, 3], [0, 3 :: real]]" "[0, 3] \<in> set [[5, 3], [0, 3], [0, 3 :: real]]"
    by simp_all
  note c = bspec [OF g2 m(1)] bspec [OF g2 m(2)] bspec [OF n2 m(3)] bspec [OF n2 m(4)]
  from example_run flat_run pinv_diagonal_length g1 n1 c show ?thesis by blast
qed

text \<open>
  The loop with an objective that may raise is the loop above when the objective
  returns. A gradient function that raises, a gradient of the wrong size and a Hessian of
  the wrong size raise in the first iteration.
\<close>

lemma newton_loop_with_exact:
  "newton_loop_with (\<lambda>v. Inr (g v)) grad hess pinv epsilon k w geval_old w_hist
     = newton_loop g grad hess pinv epsilon k w geval_old w_hist"
  by (induction k arbitrary: w geval_old w_hist) (simp_all add: Let_def split: sum.splits)

lemma newtons_method_with_exact:
  "newtons_method_with (\<lambda>v. Inr (g v)) grad hess pinv w kw = newtons_method g grad hess pinv w kw"
  by (simp add: newtons_method_with_def newtons_method_def newton_loop_with_exact)

lemma gd_loop_with_raises:
  "0 < k \<Longrightarrow> grad w = Inl e \<Longrightarrow>
   gd_loop_with nrm grad draws version alpha k i w w_hist = Inl e"
  by (cases k) simp_all

lemma gd_loop_with_mismatch:
  "0 < k \<Longrightarrow> grad w = Inr g \<Longrightarrow> length g \<noteq> length w \<Longrightarrow>
   gd_loop_with nrm grad draws version alpha k i w w_hist = Inl ValueError"
  by (cases k) simp_all

lemma newton_loop_with_mismatch:
  "0 < k \<Longrightarrow> length (hess w) \<noteq> length w * length w \<Longrightarrow>
   newton_loop_with g grad hess pinv epsilon k w geval_old w_hist = Inl ValueError"
  by (cases k) (simp_all add: newton_step_def reshape_def)

text \<open>
  The objective of three weights at a point of two: \<^verbatim>\<open>newtons_method\<close> raises on line
  129, for every \<open>max_its\<close>.
\<close>

lemma three_weights_raises:
  "three_weights (format_w (Sequence [5, 3])) = Inl ValueError \<and>
   newtons_method_with three_weights flat_grad flat_hess pinv_diagonal (Sequence [5, 3]) kw
     = Inl ValueError"
  by (simp add: three_weights_def np_dot_def format_w_def newtons_method_with_def)

text \<open>
  Claim C9 says that a non-positive iteration count raises. It does not:
  \<^verbatim>\<open>range(max_its)\<close> is empty, and both functions return the history that holds the
  initial point.
\<close>

theorem non_positive_max_its_returns:
  "gradient_descent example_grad (constant_draws (1 / 4)) (Scalar (Fin 5)) zero_its
     = Inr [[Fin 5]] \<and>
   newtons_method neg_square neg_square_grad neg_square_hess pinv_diagonal (Scalar 5) negative_its
     = Inr [[5]]"
  by (simp add: gradient_descent_def newtons_method_def zero_its_def negative_its_def
      no_kwargs_def gd_max_its_def nm_max_its_def format_w_def)

text \<open>
  Claim C9, amended. Neither function checks \<open>max_its\<close>, and a non-positive
  \<open>max_its\<close> is not an error: the loop is skipped. \<^verbatim>\<open>gradient_descent\<close>
  then returns the history that holds only the initial point, without calling the
  gradient function. \<^verbatim>\<open>newtons_method\<close> evaluates the objective at the initial point
  before the loop: when that raises (an objective that is not callable, or one written
  for another dimension), \<^verbatim>\<open>newtons_method\<close> raises the same error for every \<open>max_its\<close>;
  when it returns and \<open>max_its\<close> is not positive, \<^verbatim>\<open>newtons_method\<close> returns the history
  that holds only the initial point. With a positive \<open>max_its\<close>, \<^verbatim>\<open>gradient_descent\<close>
  raises what the gradient function raises at the initial point, and raises
  \<open>ValueError\<close> when the gradient there has not the size of the point;
  \<^verbatim>\<open>newtons_method\<close> raises \<open>ValueError\<close> when the Hessian there has not \<open>n * n\<close>
  entries.
\<close>

theorem malformed_input_behaviour:
  "(gd_max_its kw1 \<le> 0 \<longrightarrow> gradient_descent_with nrm grad1 draws w kw1 = Inr [format_w w]) \<and>
   (0 < gd_max_its kw2 \<and> grad2 (format_w w) = Inl e2 \<longrightarrow>
      gradient_descent_with nrm grad2 draws w kw2 = Inl e2) \<and>
   (0 < gd_max_its kw3 \<and> grad3 (format_w w) = Inr g3 \<and> length g3 \<noteq> np_size w \<longrightarrow>
      gradient_descent_with nrm grad3 draws w kw3 = Inl ValueError) \<and>
   (g4 (format_w v) = Inl e4 \<longrightarrow> newtons_method_with g4 ngrad hess pinv v kw4 = Inl e4) \<and>
   (nm_max_its kw5 \<le> 0 \<and> g5 (format_w v) = Inr y5 \<longrightarrow>
      newtons_method_with g5 ngrad hess pinv v kw5 = Inr [format_w v]) \<and>
   (0 < nm_max_its kw6 \<and> g6 (format_w v) = Inr y6 \<and>
    length (hess6 (format_w v)) \<noteq> np_size v * np_size v \<longrightarrow>
      newtons_method_with g6 ngrad hess6 pinv v kw6 = Inl ValueError)"
proof (intro conjI impI)
  assume "gd_max_its kw1 \<le> 0"
  then show "gradient_descent_with nrm grad1 draws w kw1 = Inr [format_w w]"
    by (simp add: gradient_descent_with_def)
next
  assume "0 < gd_max_its kw2 \<and> grad2 (format_w w) = Inl e2"
  then have "0 < nat (gd_max_its kw2)" and "grad2 (format_w w) = Inl e2"
    by simp_all
  then show "gradient_descent_with nrm grad2 draws w kw2 = Inl e2"
    by (simp add: gradient_descent_with_def gd_loop_with_raises)
next
  assume "0 < gd_max_its kw3 \<and> grad3 (format_w w) = Inr g3 \<and> length g3 \<noteq> np_size w"
  then have "0 < nat (gd_max_its kw3)" and "grad3 (format_w w) = Inr g3"
    and "length g3 \<noteq> length (format_w w)"
    by (simp_all add: length_format_w)
  then show "gradient_descent_with nrm grad3 draws w kw3 = Inl ValueError"
    by (simp add: gradient_descent_with_def gd_loop_with_mismatch)
next
  assume "g4 (format_w v) = Inl e4"
  then show "newtons_method_with g4 ngrad hess pinv v kw4 = Inl e4"
    by (simp add: newtons_method_with_def)
next
  assume "nm_max_its kw5 \<le> 0 \<and> g5 (format_w v) = Inr y5"
  then show "newtons_method_with g5 ngrad hess pinv v kw5 = Inr [format_w v]"
    by (simp add: newtons_method_with_def)
next
  assume "0 < nm_max_its kw6 \<and> g6 (format_w v) = Inr y6 \<and>
    length (hess6 (format_w v)) \<noteq> np_size v * np_size v"
  then have "0 < nat (nm_max_its kw6)" and "g6 (format_w v) = Inr y6"
    and "length (hess6 (format_w v)) \<noteq> length (format_w v) * length (format_w v)"
    by (simp_all add: length_format_w)
  then show "newtons_method_with g6 ngrad hess6 pinv v kw6 = Inl ValueError"
    by (simp add: newtons_method_with_def newton_loop_with_mismatch)
qed

theorem malformed_input_behaviour_witness:
  "gd_max_its zero_its \<le> 0 \<and>
   gradient_descent_with linalg_norm_f64 not_callable_grad (constant_draws (1 / 4))
     (Scalar (Fin 5)) zero_its = Inr [format_w (Scalar (Fin 5))] \<and>
   0 < gd_max_its no_kwargs \<and>
   not_callable_grad (format_w (Scalar (Fin 5))) = Inl TypeError \<and>
   gradient_descent_with linalg_norm_f64 not_callable_grad (constant_draws (1 / 4))
     (Scalar (Fin 5)) no_kwargs = Inl TypeError \<and>
   (\<lambda>v. Inr (empty_grad v)) (format_w (Scalar (Fin 5))) = (Inr [] :: error + column) \<and>
   length ([] :: column) \<noteq> np_size (Scalar (Fin 5)) \<and>
   gradient_descent_with linalg_norm_f64 (\<lambda>v. Inr (empty_grad v)) (constant_draws (1 / 4))
     (Scalar (Fin 5)) no_kwargs = Inl ValueError \<and>
   not_callable (format_w (Scalar 5)) = Inl TypeError \<and>
   newtons_method_with not_callable neg_square_grad neg_square_hess pinv_diagonal (Scalar 5)
     negative_its = Inl TypeError \<and>
   nm_max_its negative_its \<le> 0 \<and>
   (\<lambda>v. Inr (neg_square v)) (format_w (Scalar 5)) = (Inr (- 25) :: error + real) \<and>
   newtons_method_with (\<lambda>v. Inr (neg_square v)) neg_square_grad neg_square_hess pinv_diagonal
     (Scalar 5) negative_its = Inr [format_w (Scalar 5)] \<and>
   0 < nm_max_its no_kwargs \<and>
   length (empty_hess (format_w (Scalar 5)))
     \<noteq> np_size (Scalar (5::real)) * np_size (Scalar (5::real)) \<and>
   newtons_method_with (\<lambda>v. Inr (neg_square v)) neg_square_grad empty_hess pinv_diagonal
     (Scalar 5) no_kwargs = Inl ValueError"
proof -
  have h1: "gd_max_its zero_its \<le> 0"
    by (simp add: gd_max_its_def zero_its_def no_kwargs_def)
  have p2: "0 < gd_max_its no_kwargs"
    by (simp add: gd_max_its_def no_kwargs_def)
  have q2: "not_callable_grad (format_w (Scalar (Fin 5))) = Inl TypeError"
    by (simp add: not_callable_grad_def)
  have q3: "(\<lambda>v. Inr (empty_grad v)) (format_w (Scalar (Fin 5))) = (Inr [] :: error + column)"
    by (simp add: empty_grad_def)
  have r3: "length ([] :: column) \<noteq> np_size (Scalar (Fin 5))"
    by simp
  have h4: "not_callable (format_w (Scalar 5)) = Inl TypeError"
    by (simp add: not_callable_def)
  have p5: "nm_max_its negative_its \<le> 0"
    by (simp add: nm_max_its_def negative_its_def no_kwargs_def)
  have q5: "(\<lambda>v. Inr (neg_square v)) (format_w (Scalar 5)) = (Inr (- 25) :: error + real)"
    by (simp add: neg_square_def format_w_def)
  have p6: "0 < nm_max_its no_kwargs"
    by (simp add: nm_max_its_def no_kwargs_def)
  have r6: "length (empty_hess (format_w (Scalar 5)))
      \<noteq> np_size (Scalar (5::real)) * np_size (Scalar (5::real))"
    by (simp add: empty_hess_def)
  note t = malformed_input_behaviour [where ?kw1.0 = zero_its and nrm = linalg_norm_f64
      and ?grad1.0 = not_callable_grad and draws = "constant_draws (1 / 4)"
      and w = "Scalar (Fin 5)" and ?kw2.0 = no_kwargs and ?grad2.0 = not_callable_grad
      and ?e2.0 = TypeError and ?kw3.0 = no_kwargs and ?grad3.0 = "\<lambda>v. Inr (empty_grad v)"
      and ?g3.0 = "[]" and ?g4.0 = not_callable and v = "Scalar 5" and ?e4.0 = TypeError
      and ngrad = neg_square_grad and hess = neg_square_hess and pinv = pinv_diagonal
      and ?kw4.0 = negative_its and ?kw5.0 = negative_its
      and ?g5.0 = "\<lambda>v. Inr (neg_square v)" and ?y5.0 = "- 25" and ?kw6.0 = no_kwargs
      and ?g6.0 = "\<lambda>v. Inr (neg_square v)" and ?y6.0 = "- 25" and ?hess6.0 = empty_hess]
  from t h1 have c1: "gradient_descent_with linalg_norm_f64 not_callable_grad
      (constant_draws (1 / 4)) (Scalar (Fin 5)) zero_its = Inr [format_w (Scalar (Fin 5))]"
    by blast
  from t p2 q2 have c2: "gradient_descent_with linalg_norm_f64 not_callable_grad
      (constant_draws (1 / 4)) (Scalar (Fin 5)) no_kwargs = Inl TypeError"
    by blast
  from t p2 q3 r3 have c3: "gradient_descent_with linalg_norm_f64 (\<lambda>v. Inr (empty_grad v))
      (constant_draws (1 / 4)) (Scalar (Fin 5)) no_kwargs = Inl ValueError"
    by blast
  from t h4 have c4: "newtons_method_with not_callable neg_square_grad neg_square_hess
      pinv_diagonal (Scalar 5) negative_its = Inl TypeError"
    by blast
  from t p5 q5 have c5: "newtons_method_with (\<lambda>v. Inr (neg_square v)) neg_square_grad
      neg_square_hess pinv_diagonal (Scalar 5) negative_its = Inr [format_w (Scalar 5)]"
    by blast
  from t p6 q5 r6 have c6: "newtons_method_with (\<lambda>v. Inr (neg_square v)) neg_square_grad
      empty_hess pinv_diagonal (Scalar 5) no_kwargs = Inl ValueError"
    by blast
  from h1 c1 p2 q2 c2 q3 r3 c3 h4 c4 p5 q5 c5 p6 r6 c6 show ?thesis by blast
qed

section \<open>The update of Newton's method\<close>

text \<open>The inner product is symmetric and bilinear, and definite.\<close>

lemma dot_commute: "dot x y = dot y x"
proof (induction x arbitrary: y)
  case Nil
  then show ?case by (simp add: dot_def)
next
  case (Cons a x)
  then show ?case by (cases y) (simp_all add: dot_def)
qed

lemma dot_add_left:
  "length x = length y \<Longrightarrow> length y = length z \<Longrightarrow>
   dot (map2 (+) x y) z = dot x z + dot y z"
  by (induction x y z rule: list_induct3) (simp_all add: dot_def algebra_simps)

lemma dot_sub_left:
  "length x = length y \<Longrightarrow> length y = length z \<Longrightarrow>
   dot (map2 (-) x y) z = dot x z - dot y z"
  by (induction x y z rule: list_induct3) (simp_all add: dot_def algebra_simps)

lemma dot_add_right:
  "length x = length y \<Longrightarrow> length y = length z \<Longrightarrow>
   dot z (map2 (+) x y) = dot z x + dot z y"
  by (simp add: dot_commute [of z] dot_add_left)

lemma dot_sub_right:
  "length x = length y \<Longrightarrow> length y = length z \<Longrightarrow>
   dot z (map2 (-) x y) = dot z x - dot z y"
  by (simp add: dot_commute [of z] dot_sub_left)

lemma dot_self_nonneg: "0 \<le> dot x x"
  by (induction x) (simp_all add: dot_def)

lemma dot_self_zero: "dot x x = 0 \<Longrightarrow> x = replicate (length x) 0"
proof (induction x)
  case Nil
  then show ?case by simp
next
  case (Cons a x)
  have "0 \<le> dot x x" by (rule dot_self_nonneg)
  moreover have "0 \<le> a * a" by simp
  moreover from Cons.prems have "a * a + dot x x = 0" by (simp add: dot_def)
  ultimately have "a * a = 0" and "dot x x = 0" by linarith+
  with Cons.IH show ?case by simp
qed

lemma dot_zero_right: "dot x (replicate n 0) = 0"
proof (induction x arbitrary: n)
  case Nil
  then show ?case by (simp add: dot_def)
next
  case (Cons a x)
  then show ?case by (cases n) (simp_all add: dot_def)
qed

lemma rnorm_dot: "rnorm x = sqrt (dot x x)"
proof -
  have "map (\<lambda>x. x * x) x = map2 (*) x x" by (induction x) simp_all
  then show ?thesis by (simp add: rnorm_def dot_def)
qed

lemma dot_sum_square:
  assumes "length a = length b" and "dot a b = 0"
  shows "dot (map2 (+) a b) (map2 (+) a b) = dot a a + dot b b"
proof -
  have "dot (map2 (+) a b) (map2 (+) a b) = dot a a + dot a b + (dot b a + dot b b)"
    using assms(1) by (simp add: dot_add_left dot_add_right)
  with assms(2) show ?thesis by (simp add: dot_commute [of b a])
qed

text \<open>A matrix acts linearly on columns.\<close>

lemma length_mat_vec: "length (mat_vec A x) = length A"
  by (simp add: mat_vec_def)

lemma mat_vec_sub:
  assumes "list_all (\<lambda>row. length row = n) A" and "length x = n" and "length y = n"
  shows "mat_vec A (map2 (-) x y) = map2 (-) (mat_vec A x) (mat_vec A y)"
  using assms(1)
proof (induction A)
  case Nil
  then show ?case by (simp add: mat_vec_def)
next
  case (Cons row A)
  then have "length row = n" by simp
  with assms(2,3) have "dot row (map2 (-) x y) = dot row x - dot row y"
    by (simp add: dot_sub_right)
  with Cons show ?case by (simp add: mat_vec_def dot_def)
qed

lemma mat_vec_zero: "mat_vec A (replicate n 0) = replicate (length A) 0"
proof (induction A)
  case Nil
  then show ?case by (simp add: mat_vec_def)
next
  case (Cons row A)
  have "dot row (replicate n 0) = 0" by (rule dot_zero_right)
  with Cons show ?case by (simp add: mat_vec_def dot_def)
qed

lemma vector_split:
  fixes x d :: vector
  shows "length x = length d \<Longrightarrow> x = map2 (+) d (map2 (-) x d)"
  by (induction x d rule: list_induct2) simp_all

lemma residual_split:
  fixes p q b :: vector
  shows "length p = length q \<Longrightarrow> length q = length b \<Longrightarrow>
   map2 (-) p b = map2 (+) (map2 (-) p q) (map2 (-) q b)"
  by (induction p q b rule: list_induct3) simp_all

text \<open>
  From the Penrose equations: the residual of any \<open>x\<close> is the residual of \<open>P b\<close> plus
  \<open>A (x - P b)\<close>, and the two are orthogonal; and \<open>P b\<close> is orthogonal to every \<open>u\<close> with
  \<open>A u = 0\<close>. So \<open>P b\<close> is the least-norm solution.
\<close>

lemma pseudo_inverse_least_norm:
  assumes mp: "moore_penrose n A P" and b: "length b = n"
  shows "least_norm_solution n A b (mat_vec P b)"
proof -
  define d where "d = mat_vec P b"
  define r where "r = residual A d b"
  from mp have lenA: "length A = n" and rowsA: "list_all (\<lambda>row. length row = n) A"
    and lenP: "length P = n"
    and p1: "\<And>x. length x = n \<Longrightarrow> mat_vec A (mat_vec P (mat_vec A x)) = mat_vec A x"
    and p2: "\<And>x. length x = n \<Longrightarrow> mat_vec P (mat_vec A (mat_vec P x)) = mat_vec P x"
    and p3: "\<And>x y. length x = n \<Longrightarrow> length y = n \<Longrightarrow>
        dot (mat_vec A (mat_vec P x)) y = dot x (mat_vec A (mat_vec P y))"
    and p4: "\<And>x y. length x = n \<Longrightarrow> length y = n \<Longrightarrow>
        dot (mat_vec P (mat_vec A x)) y = dot x (mat_vec P (mat_vec A y))"
    by (simp_all add: moore_penrose_def square_matrix_def)
  have lend: "length d = n" by (simp add: d_def length_mat_vec lenP)
  have lenAv: "length (mat_vec A v) = n" for v by (simp add: length_mat_vec lenA)
  have lenr: "length r = n" by (simp add: r_def residual_def lenAv b)
  have split: "residual A x b = map2 (+) (mat_vec A (map2 (-) x d)) r
      \<and> dot (mat_vec A (map2 (-) x d)) r = 0"
    if x: "length x = n" for x
  proof -
    define u where "u = map2 (-) x d"
    have lenu: "length u = n" by (simp add: u_def x lend)
    have Au: "mat_vec A u = map2 (-) (mat_vec A x) (mat_vec A d)"
      unfolding u_def by (rule mat_vec_sub [OF rowsA x lend])
    have "residual A x b = map2 (+) (map2 (-) (mat_vec A x) (mat_vec A d)) (map2 (-) (mat_vec A d) b)"
      unfolding residual_def by (rule residual_split) (simp_all add: lenAv b)
    then have s: "residual A x b = map2 (+) (mat_vec A u) r"
      by (simp add: Au r_def residual_def)
    have "dot (mat_vec A u) (mat_vec A d) = dot (mat_vec A (mat_vec P b)) (mat_vec A u)"
      by (simp add: d_def dot_commute)
    also have "\<dots> = dot b (mat_vec A (mat_vec P (mat_vec A u)))"
      by (rule p3 [OF b lenAv])
    also have "\<dots> = dot b (mat_vec A u)" by (simp add: p1 [OF lenu])
    finally have e: "dot (mat_vec A u) (mat_vec A d) = dot (mat_vec A u) b"
      by (simp add: dot_commute)
    have "dot (mat_vec A u) r = dot (mat_vec A u) (mat_vec A d) - dot (mat_vec A u) b"
      unfolding r_def residual_def by (rule dot_sub_right) (simp_all add: lenAv b)
    with e have "dot (mat_vec A u) r = 0" by simp
    with s show ?thesis by (simp add: u_def)
  qed
  have sq: "dot (residual A x b) (residual A x b)
      = dot (mat_vec A (map2 (-) x d)) (mat_vec A (map2 (-) x d)) + dot r r"
    if x: "length x = n" for x
  proof -
    from split [OF x] have s: "residual A x b = map2 (+) (mat_vec A (map2 (-) x d)) r"
      and o: "dot (mat_vec A (map2 (-) x d)) r = 0" by simp_all
    have "length (mat_vec A (map2 (-) x d)) = length r" by (simp add: lenAv lenr)
    from dot_sum_square [OF this o] show ?thesis by (simp add: s)
  qed
  have least: "rnorm (residual A d b) \<le> rnorm (residual A x b)" if x: "length x = n" for x
  proof -
    have "dot r r \<le> dot (residual A x b) (residual A x b)"
      using sq [OF x] dot_self_nonneg [of "mat_vec A (map2 (-) x d)"] by simp
    then show ?thesis by (simp add: rnorm_dot r_def)
  qed
  have norm: "rnorm d \<le> rnorm x"
    if x: "length x = n" and eq: "rnorm (residual A x b) = rnorm (residual A d b)" for x
  proof -
    define u where "u = map2 (-) x d"
    have lenu: "length u = n" by (simp add: u_def x lend)
    from eq have "dot (residual A x b) (residual A x b) = dot r r"
      by (simp add: rnorm_dot r_def)
    with sq [OF x] have "dot (mat_vec A u) (mat_vec A u) = 0" by (simp add: u_def)
    from dot_self_zero [OF this] have Au0: "mat_vec A u = replicate n 0" by (simp add: lenAv)
    have "dot d u = dot (mat_vec P (mat_vec A (mat_vec P b))) u"
      by (simp add: d_def p2 [OF b])
    also have "\<dots> = dot (mat_vec P b) (mat_vec P (mat_vec A u))"
      by (rule p4 [OF _ lenu]) (simp add: length_mat_vec lenP)
    also have "\<dots> = 0" by (simp add: Au0 mat_vec_zero dot_zero_right)
    finally have o: "dot d u = 0" .
    have "x = map2 (+) d u" unfolding u_def by (rule vector_split) (simp add: x lend)
    then have "dot x x = dot (map2 (+) d u) (map2 (+) d u)" by simp
    also have "\<dots> = dot d d + dot u u"
      by (rule dot_sum_square [OF _ o]) (simp add: lend lenu)
    finally have "dot d d \<le> dot x x" using dot_self_nonneg [of u] by simp
    then show ?thesis by (simp add: rnorm_dot)
  qed
  show ?thesis
    unfolding least_norm_solution_def d_def [symmetric]
    using lend least norm by blast
qed

lemma np_dot_mat_vec: "np_dot A v = Inr d \<Longrightarrow> d = mat_vec A v"
  by (auto simp: np_dot_def mat_vec_def split: if_splits)

lemma step_least_norm:
  assumes mp: "moore_penrose n A P" and d: "np_dot P b = Inr d"
  shows "least_norm_solution n A b d"
proof (cases "n = 0")
  case True
  with mp have "A = []" and "P = []" by (simp_all add: moore_penrose_def square_matrix_def)
  with d have "d = []" by (simp add: np_dot_def)
  with True \<open>A = []\<close> show ?thesis
    by (simp add: least_norm_solution_def residual_def mat_vec_def rnorm_def)
next
  case False
  from mp have lenP: "length P = n" and rowsP: "list_all (\<lambda>row. length row = n) P"
    by (simp_all add: moore_penrose_def square_matrix_def)
  from False lenP obtain row where "row \<in> set P" by (cases P) auto
  moreover from this rowsP have "length row = n" by (simp add: list_all_iff)
  moreover from d have "\<not> list_ex (\<lambda>row. length row \<noteq> length b) P"
    by (auto simp: np_dot_def split: if_splits)
  ultimately have "length b = n" by (auto simp: list_ex_iff)
  from pseudo_inverse_least_norm [OF mp this] np_dot_mat_vec [OF d] show ?thesis by simp
qed

lemma newton_step_unfold:
  "newton_step grad hess pinv epsilon w = Inr w' \<Longrightarrow>
   \<exists>H d. reshape (length w) (length w) (hess w) = Inr H \<and>
         np_dot (pinv (damped epsilon (length w) H)) (grad w) = Inr d \<and>
         np_sub w d = Inr w'"
  by (auto simp: newton_step_def damped_def Let_def split: sum.splits)

text \<open>
  With a gradient of \<open>n\<close> entries, a Hessian of \<open>n * n\<close> entries and a pseudo-inverse
  that returns a matrix of the shape \<open>(n, n)\<close>, the step returns: the code adds no failure
  of its own for a singular matrix. Whether \<^verbatim>\<open>np.linalg.pinv\<close> returns is not part
  of the model.
\<close>

lemma square_reshape: "reshape n n xs = Inr H \<Longrightarrow> square_matrix n H"
proof -
  assume r: "reshape n n xs = Inr H"
  then have len: "length xs = n * n" and H: "H = map (\<lambda>i. take n (drop (i * n) xs)) [0..<n]"
    by (auto simp: reshape_def split: if_splits)
  have "length (take n (drop (i * n) xs)) = n" if "i < n" for i
  proof -
    from that have "1 * n \<le> (n - i) * n" by (intro mult_le_mono1) simp
    then have "n \<le> n * n - i * n" by (simp add: diff_mult_distrib)
    then show ?thesis by (simp add: len)
  qed
  then show ?thesis by (simp add: square_matrix_def H list_all_iff)
qed

lemma square_damped: "square_matrix n H \<Longrightarrow> square_matrix n (damped epsilon n H)"
  by (auto simp: square_matrix_def damped_def mat_add_def mat_scale_def eye_def
      list_all_length)

lemma newton_step_returns:
  assumes "length (grad v) = length v" and "length (hess v) = length v * length v"
    and "\<forall>M. square_matrix (length v) M \<longrightarrow> square_matrix (length v) (pinv M)"
  shows "\<exists>v'. newton_step grad hess pinv epsilon v = Inr v'"
proof -
  from assms(2) obtain H where H: "reshape (length v) (length v) (hess v) = Inr H"
    by (simp add: reshape_def)
  define P where "P = pinv (damped epsilon (length v) H)"
  from square_damped [OF square_reshape [OF H]] assms(3) have sq: "square_matrix (length v) P"
    by (simp add: P_def)
  with assms(1) have "\<not> list_ex (\<lambda>row. length row \<noteq> length (grad v)) P"
    by (simp add: square_matrix_def list_all_iff list_ex_iff)
  then have d: "np_dot P (grad v) = Inr (mat_vec P (grad v))"
    by (simp add: np_dot_def mat_vec_def)
  have "length (mat_vec P (grad v)) = length v"
    using sq by (simp add: length_mat_vec square_matrix_def)
  then have "np_sub v (mat_vec P (grad v)) = Inr (map2 (-) v (mat_vec P (grad v)))"
    by (simp add: np_sub_def)
  with H d show ?thesis
    by (simp add: newton_step_def P_def damped_def)
qed

text \<open>
  The flat objective without damping: the Hessian \<open>diag(2, 0)\<close> is singular, and
  \<open>diag(1 / 2, 0)\<close> is its pseudo-inverse.
\<close>

lemma length_two: "length x = 2 \<Longrightarrow> \<exists>a b. x = [a, b]"
  by (auto simp: numeral_2_eq_2 length_Suc_conv)

lemma flat_damped: "damped 0 (Suc (Suc 0)) [[2, 0], [0, 0]] = [[2, 0], [0, 0]]"
  by (simp add: damped_def mat_add_def mat_scale_def eye_def upt_rec)

lemma flat_moore_penrose:
  "moore_penrose 2 [[2, 0], [0, 0]] (pinv_diagonal [[2, 0], [0, 0]])"
proof -
  have P: "pinv_diagonal [[2, 0], [0, 0]] = [[1 / 2, 0], [0, 0]]"
    by (simp add: pinv_diagonal_def)
  have "\<And>x. length x = 2 \<Longrightarrow>
      mat_vec [[2, 0], [0, 0]] (mat_vec [[1 / 2, 0], [0, 0]] (mat_vec [[2, 0], [0, 0]] x))
        = mat_vec [[2, 0], [0, 0]] x"
    by (drule length_two) (auto simp: mat_vec_def)
  moreover have "\<And>x. length x = 2 \<Longrightarrow>
      mat_vec [[1 / 2, 0], [0, 0]] (mat_vec [[2, 0], [0, 0]] (mat_vec [[1 / 2, 0], [0, 0]] x))
        = mat_vec [[1 / 2, 0], [0, 0]] x"
    by (drule length_two) (auto simp: mat_vec_def)
  moreover have "\<And>x y. length x = 2 \<Longrightarrow> length y = 2 \<Longrightarrow>
      dot (mat_vec [[2, 0], [0, 0]] (mat_vec [[1 / 2, 0], [0, 0]] x)) y
        = dot x (mat_vec [[2, 0], [0, 0]] (mat_vec [[1 / 2, 0], [0, 0]] y))"
    by (drule length_two, drule length_two) (auto simp: mat_vec_def dot_def)
  moreover have "\<And>x y. length x = 2 \<Longrightarrow> length y = 2 \<Longrightarrow>
      dot (mat_vec [[1 / 2, 0], [0, 0]] (mat_vec [[2, 0], [0, 0]] x)) y
        = dot x (mat_vec [[1 / 2, 0], [0, 0]] (mat_vec [[2, 0], [0, 0]] y))"
    by (drule length_two, drule length_two) (auto simp: mat_vec_def dot_def)
  ultimately show ?thesis
    unfolding moore_penrose_def P by (simp add: square_matrix_def)
qed

text \<open>
  What the code contributes to the update that claim C3 describes. Every element of a
  returned history after the first is the one before it, \<open>w\<close>, minus
  \<open>pinv (Hessian(w) + epsilon * I)\<close> applied to the gradient at \<open>w\<close>; \<open>epsilon\<close> is
  \<open>10\<^sup>-\<^sup>5\<close> when the caller gives none; and the damped matrix is the Hessian with
  \<open>epsilon\<close> added on its diagonal. That \<^verbatim>\<open>np.linalg.pinv\<close> returns for a singular or
  nearly singular matrix, and returns finite entries, is a property of numpy's routine in
  float64. It is not stated here: \<open>pinv\<close> is a parameter, and the update is the least-norm
  solution as far as \<open>pinv\<close> returns the Moore-Penrose pseudo-inverse (lemma
  \<open>step_least_norm\<close>).
\<close>

lemma newton_history_step:
  assumes "newtons_method g grad hess pinv w kw = Inr hist" and "Suc j < length hist"
  shows "\<exists>H d. reshape (length (hist ! j)) (length (hist ! j)) (hess (hist ! j)) = Inr H \<and>
           np_dot (pinv (damped (nm_epsilon kw) (length (hist ! j)) H)) (grad (hist ! j)) = Inr d \<and>
           np_sub (hist ! j) d = Inr (hist ! Suc j)"
proof -
  from assms(1) have
    run: "newton_loop g grad hess pinv (nm_epsilon kw) (nat (nm_max_its kw)) (format_w w)
            (g (format_w w)) [format_w w] = Inr hist"
    by (simp add: newtons_method_def Let_def)
  from newton_loop_inv [OF run] obtain rest where
    hist: "hist = [format_w w] @ rest" and
    steps: "\<forall>j<length rest.
        newton_step grad hess pinv (nm_epsilon kw) (hist ! (length [format_w w] - 1 + j))
          = Inr (hist ! (length [format_w w] + j)) \<and>
        g (hist ! (length [format_w w] + j)) \<le> g (hist ! (length [format_w w] - 1 + j))"
    by auto
  from assms(2) hist have "j < length rest" by simp
  with steps have "newton_step grad hess pinv (nm_epsilon kw) (hist ! (length [format_w w] - 1 + j))
          = Inr (hist ! (length [format_w w] + j))" by blast
  then have "newton_step grad hess pinv (nm_epsilon kw) (hist ! j) = Inr (hist ! Suc j)"
    by simp
  from newton_step_unfold [OF this] show ?thesis .
qed

lemma nm_epsilon_default: "nm_epsilon (kw\<lparr>kw_epsilon := None\<rparr>) = 1 / 10 ^ 5"
  by (simp add: nm_epsilon_def)

lemma damped_entry:
  assumes "square_matrix n H" and "i < n" and "j < n"
  shows "damped epsilon n H ! i ! j = H ! i ! j + (if i = j then epsilon else 0)"
proof -
  from assms have lH: "length H = n" and lr: "length (H ! i) = n"
    by (simp_all add: square_matrix_def list_all_length)
  show ?thesis
    using assms(2,3) by (simp add: damped_def mat_add_def mat_scale_def eye_def lH lr)
qed

text \<open>
  The saddle with \<open>epsilon = 1\<close>: the damped Hessian \<open>diag(3, 0)\<close> is singular,
  \<open>diag(1 / 3, 0)\<close> is its pseudo-inverse, the update at \<open>(5, 3)\<close> is \<open>(10 / 3, 0)\<close>, the
  least-norm solution, and the next iterate is \<open>(5 / 3, 3)\<close>.
\<close>

lemma saddle_damped: "damped 1 (Suc (Suc 0)) [[2, 0], [0, - 1]] = [[3, 0], [0, 0]]"
  by (simp add: damped_def mat_add_def mat_scale_def eye_def upt_rec)

lemma saddle_moore_penrose:
  "moore_penrose 2 [[3, 0], [0, 0]] (pinv_diagonal [[3, 0], [0, 0]])"
proof -
  have P: "pinv_diagonal [[3, 0], [0, 0]] = [[1 / 3, 0], [0, 0]]"
    by (simp add: pinv_diagonal_def)
  have "\<And>x. length x = 2 \<Longrightarrow>
      mat_vec [[3, 0], [0, 0]] (mat_vec [[1 / 3, 0], [0, 0]] (mat_vec [[3, 0], [0, 0]] x))
        = mat_vec [[3, 0], [0, 0]] x"
    by (drule length_two) (auto simp: mat_vec_def)
  moreover have "\<And>x. length x = 2 \<Longrightarrow>
      mat_vec [[1 / 3, 0], [0, 0]] (mat_vec [[3, 0], [0, 0]] (mat_vec [[1 / 3, 0], [0, 0]] x))
        = mat_vec [[1 / 3, 0], [0, 0]] x"
    by (drule length_two) (auto simp: mat_vec_def)
  moreover have "\<And>x y. length x = 2 \<Longrightarrow> length y = 2 \<Longrightarrow>
      dot (mat_vec [[3, 0], [0, 0]] (mat_vec [[1 / 3, 0], [0, 0]] x)) y
        = dot x (mat_vec [[3, 0], [0, 0]] (mat_vec [[1 / 3, 0], [0, 0]] y))"
    by (drule length_two, drule length_two) (auto simp: mat_vec_def dot_def)
  moreover have "\<And>x y. length x = 2 \<Longrightarrow> length y = 2 \<Longrightarrow>
      dot (mat_vec [[1 / 3, 0], [0, 0]] (mat_vec [[3, 0], [0, 0]] x)) y
        = dot x (mat_vec [[1 / 3, 0], [0, 0]] (mat_vec [[3, 0], [0, 0]] y))"
    by (drule length_two, drule length_two) (auto simp: mat_vec_def dot_def)
  ultimately show ?thesis
    unfolding moore_penrose_def P by (simp add: square_matrix_def)
qed

lemma saddle_step:
  "newton_step saddle_grad saddle_hess pinv_diagonal 1 [5, 3] = Inr [5 / 3, 3]"
  by (simp add: newton_step_def saddle_grad_def saddle_hess_def pinv_diagonal_def
      reshape_def eye_def mat_scale_def mat_add_def np_dot_def np_sub_def upt_rec)

lemma saddle_run:
  "newtons_method saddle saddle_grad saddle_hess pinv_diagonal (Sequence [5, 3]) damped_once
     = Inr [[5, 3], [5 / 3, 3]]"
  by (simp add: newtons_method_def nm_epsilon_def nm_max_its_def damped_once_def no_kwargs_def
      format_w_def eval_nat_numeral saddle_step saddle_def)

lemma saddle_least_norm:
  "np_dot (pinv_diagonal (damped 1 2 [[2, 0], [0, - 1]])) (saddle_grad [5, 3]) = Inr [10 / 3, 0] \<and>
   least_norm_solution 2 (damped 1 2 [[2, 0], [0, - 1]]) (saddle_grad [5, 3]) [10 / 3, 0]"
proof -
  have D: "damped 1 2 [[2, 0], [0, - 1]] = [[3, 0], [0, 0]]"
    using saddle_damped by (simp add: numeral_2_eq_2)
  have d: "np_dot (pinv_diagonal [[3, 0], [0, 0]]) (saddle_grad [5, 3]) = Inr [10 / 3, 0]"
    by (simp add: np_dot_def pinv_diagonal_def saddle_grad_def)
  from step_least_norm [OF saddle_moore_penrose d] d show ?thesis
    by (simp add: D)
qed

section \<open>Properties of the line search\<close>

text \<open>
  By induction on the runs of the loop that return: started at \<open>0.8\<^sup>n\<close>, with the
  condition false at every smaller power, the loop returns the first power at which the
  condition holds.
\<close>

lemma backtracking_loop_first:
  assumes "backtracking_loop g w grad_eval t func_eval grad_norm alpha = Some y"
  shows "t = 8 / 10 \<Longrightarrow> func_eval = g w \<Longrightarrow> grad_norm = (rnorm grad_eval) ^ 2 \<Longrightarrow>
         alpha = (8 / 10) ^ n \<Longrightarrow>
         (\<forall>j<n. \<not> sufficient_decrease g w grad_eval ((8 / 10) ^ j)) \<Longrightarrow> y = Inr a \<Longrightarrow>
         \<exists>m. a = (8 / 10) ^ m \<and> sufficient_decrease g w grad_eval ((8 / 10) ^ m) \<and>
             (\<forall>j<m. \<not> sufficient_decrease g w grad_eval ((8 / 10) ^ j))"
  using assms
proof (induction arbitrary: n rule: backtracking_loop.raw_induct [rotated 1, consumes 1, case_names step])
  case (step loop g w grad_eval t func_eval grad_norm alpha y)
  note body = step.hyps(1)
  from step.prems(6) body obtain v where v: "np_sub w (map ((*) alpha) grad_eval) = Inr v"
    by (cases "np_sub w (map ((*) alpha) grad_eval)") simp_all
  show ?case
  proof (cases "g v > func_eval - alpha * (1 / 2) * grad_norm")
    case True
    with body v have rec: "loop g w grad_eval t func_eval grad_norm (t * alpha) = Some y"
      by simp
    have next_alpha: "t * alpha = (8 / 10) ^ Suc n"
      using step.prems(1,4) by simp
    have "\<not> sufficient_decrease g w grad_eval ((8 / 10) ^ n)"
      using True v step.prems(2,3,4) by (simp add: sufficient_decrease_def)
    with step.prems(5) have "\<forall>j<Suc n. \<not> sufficient_decrease g w grad_eval ((8 / 10) ^ j)"
      by (simp add: less_Suc_eq)
    from step.IH [OF rec step.prems(1,2,3) next_alpha this step.prems(6)] show ?thesis .
  next
    case False
    with step.prems(6) body v have "a = alpha" by simp
    moreover have "sufficient_decrease g w grad_eval ((8 / 10) ^ n)"
      using False v step.prems(2,3,4) by (simp add: sufficient_decrease_def)
    ultimately show ?thesis using step.prems(4,5) by blast
  qed
qed

text \<open>
  The sum of squares at \<open>1\<close> with its gradient \<open>2\<close>: the condition fails at \<open>1\<close>, \<open>0.8\<close>,
  \<open>0.64\<close> and \<open>0.512\<close> and holds at \<open>0.8\<^sup>4\<close>.
\<close>

lemma square_backtracking:
  "backtracking square [1] [2] = Some (Inr ((8 / 10) ^ 4))"
  by (simp add: backtracking_def backtracking_loop.simps square_def rnorm_def np_sub_def
      power4_eq_xxxx)

text \<open>
  Claim C6. When \<^verbatim>\<open>backtracking\<close> returns \<open>alpha\<close>, then \<open>alpha\<close> is \<open>0.8\<^sup>m\<close> for the first
  \<open>m\<close> at which the sufficient-decrease condition holds; in particular the condition
  holds at \<open>alpha\<close>.
\<close>

theorem backtracking_first_sufficient:
  assumes "backtracking g w grad_eval = Some (Inr a)"
  shows "\<exists>m. a = (8 / 10) ^ m \<and> sufficient_decrease g w grad_eval ((8 / 10) ^ m) \<and>
             (\<forall>j<m. \<not> sufficient_decrease g w grad_eval ((8 / 10) ^ j))"
proof -
  from assms have
    "backtracking_loop g w grad_eval (8 / 10) (g w) ((rnorm grad_eval) ^ 2) 1 = Some (Inr a)"
    by (simp add: backtracking_def Let_def)
  from backtracking_loop_first [OF this, of 0 a] show ?thesis by simp
qed

theorem backtracking_first_sufficient_witness:
  "backtracking square [1] [2] = Some (Inr ((8 / 10) ^ 4)) \<and>
   (\<exists>m. (8 / 10) ^ 4 = ((8 / 10) ^ m :: real) \<and>
        sufficient_decrease square [1] [2] ((8 / 10) ^ m) \<and>
        (\<forall>j<m. \<not> sufficient_decrease square [1] [2] ((8 / 10) ^ j)))"
  using backtracking_first_sufficient [OF square_backtracking] square_backtracking by blast

text \<open>
  The sum of absolute values at \<open>0\<close> with the direction \<open>1\<close>: every positive step
  increases the objective, so no run of the loop from a positive \<open>alpha\<close> returns.
\<close>

lemma backtracking_loop_abs_sum:
  assumes "backtracking_loop g w grad_eval t func_eval grad_norm alpha = Some y"
  shows "g = abs_sum \<Longrightarrow> w = [0] \<Longrightarrow> grad_eval = [1] \<Longrightarrow> t = 8 / 10 \<Longrightarrow> func_eval = 0 \<Longrightarrow>
         grad_norm = 1 \<Longrightarrow> 0 < alpha \<Longrightarrow> False"
  using assms
proof (induction rule: backtracking_loop.raw_induct [rotated 1, consumes 1, case_names step])
  case (step loop g w grad_eval t func_eval grad_norm alpha y)
  have v: "np_sub w (map ((*) alpha) grad_eval) = Inr [- alpha]"
    using step.prems(2,3) by (simp add: np_sub_def)
  have "g [- alpha] > func_eval - alpha * (1 / 2) * grad_norm"
    using step.prems(1,5,6,7) by (simp add: abs_sum_def)
  with step.hyps(1) v have "loop g w grad_eval t func_eval grad_norm (t * alpha) = Some y"
    by simp
  moreover have "0 < t * alpha" using step.prems(4,7) by simp
  ultimately show ?case using step.IH step.prems(1-6) by blast
qed

lemma not_sufficient_abs_sum: "0 < alpha \<Longrightarrow> \<not> sufficient_decrease abs_sum [0] [1] alpha"
  by (simp add: sufficient_decrease_def np_sub_def abs_sum_def rnorm_def)

text \<open>
  Claim C7. The loop of \<^verbatim>\<open>backtracking\<close> has no bound: for the objective \<open>|w|\<close> at
  \<open>w = 0\<close> with \<open>grad_eval = 1\<close> the sufficient-decrease condition holds at no \<open>0.8\<^sup>m\<close>,
  and the call does not return.
\<close>

theorem backtracking_unbounded:
  "(\<forall>m. \<not> sufficient_decrease abs_sum [0] [1] ((8 / 10) ^ m)) \<and>
   backtracking abs_sum [0] [1] = None"
proof
  show "\<forall>m. \<not> sufficient_decrease abs_sum [0] [1] ((8 / 10) ^ m)"
    by (simp add: not_sufficient_abs_sum)
  have "backtracking_loop abs_sum [0] [1] (8 / 10) 0 1 1 \<noteq> Some y" for y
    using backtracking_loop_abs_sum [of abs_sum "[0]" "[1]" "8 / 10" 0 1 1 y] by auto
  then have "backtracking_loop abs_sum [0] [1] (8 / 10) 0 1 1 = None"
    by (cases "backtracking_loop abs_sum [0] [1] (8 / 10) 0 1 1") simp_all
  then show "backtracking abs_sum [0] [1] = None"
    by (simp add: backtracking_def Let_def abs_sum_def rnorm_def)
qed

end
